theory Spec2Isabelle
  imports
    Main
    "HOL-Library.Word"
    "HOL-Library.Char_ord"
    "HOL-Library.List_Lexorder"
    "HOL-Library.Product_Lexorder"
    "HOL-Library.AList"
    "HOL-Library.Multiset"
begin

unbundle bit_operations_syntax

section \<open>Python values\<close>

text \<open>
  A Python \<open>str\<close> is a \<open>string\<close>: the list of the bytes of its UTF-8 encoding, so that
  \<open>str.encode()\<close> reads the same list as bytes, comparison is Python's comparison by code
  point, and the ASCII separators the library splits on never fall inside a character.
  A \<open>bytes\<close> value is a list of 8-bit words.  The argument type \<open>bytes | str | None\<close> of
  \<open>sha256_hash\<close> and of a URL's query is the datatype \<open>py_data\<close>.
\<close>

type_synonym byte = "8 word"
type_synonym u32 = "32 word"

datatype py_data = Bytes "byte list" | Str string | NoneVal

text \<open>
  The exceptions the library and the functions it calls can raise.  The last three are the
  subclasses of \<open>AWS4Exception\<close>; the others are Python's own.
\<close>

datatype error =
    KeyError string
  | ValueError
  | TypeError
  | AttributeError
  | OverflowError
  | UnicodeDecodeError
  | ParserError
  | MissingHeaderError
  | InvalidDateError
  | InvalidSignatureError

fun is_AWS4Exception :: "error \<Rightarrow> bool" where
  "is_AWS4Exception MissingHeaderError = True"
| "is_AWS4Exception InvalidDateError = True"
| "is_AWS4Exception InvalidSignatureError = True"
| "is_AWS4Exception _ = False"

definition encode :: "string \<Rightarrow> byte list" where
  "encode s = map of_char s"

subsection \<open>\<open>str\<close> methods\<close>

definition lower_char :: "char \<Rightarrow> char" where
  "lower_char c =
     (if CHR ''A'' \<le> c \<and> c \<le> CHR ''Z'' then char_of (of_char c + (32::nat)) else c)"

text \<open>
  \<open>str.lower()\<close>, on the ASCII letters \<open>A\<close> to \<open>Z\<close>.  Python also lower-cases the
  letters outside ASCII, which this model leaves as they are: what is proved about names
  is proved relative to this \<open>lower\<close>, and is exact for ASCII names, as the names of HTTP
  headers and the names the library compares with are.
\<close>

definition lower :: "string \<Rightarrow> string" where
  "lower s = map lower_char s"

text \<open>
  \<open>find_sub sep s\<close> is the first occurrence of \<open>sep\<close> in \<open>s\<close>, scanning from the left:
  the text before it and the text after it.
\<close>

fun find_sub :: "string \<Rightarrow> string \<Rightarrow> (string \<times> string) option" where
  "find_sub sep [] = (if sep = [] then Some ([], []) else None)"
| "find_sub sep (x # xs) =
     (if take (length sep) (x # xs) = sep then Some ([], drop (length sep) (x # xs))
      else (case find_sub sep xs of
              None \<Rightarrow> None
            | Some (a, b) \<Rightarrow> Some (x # a, b)))"

text \<open>\<open>s.partition(sep)\<close>: a triple; when \<open>sep\<close> is absent, \<open>(s, "", "")\<close>.\<close>

definition str_partition :: "string \<Rightarrow> string \<Rightarrow> string \<times> string \<times> string" where
  "str_partition sep s =
     (case find_sub sep s of
        None \<Rightarrow> (s, [], [])
      | Some (a, b) \<Rightarrow> (a, sep, b))"

lemma find_sub_shorter:
  "find_sub sep s = Some (a, b) \<Longrightarrow> sep \<noteq> [] \<Longrightarrow> length b < length s"
proof (induction s arbitrary: a)
  case Nil
  then show ?case by simp
next
  case (Cons x xs)
  show ?case
  proof (cases "take (length sep) (x # xs) = sep")
    case True
    with Cons.prems show ?thesis by (cases sep) auto
  next
    case False
    with Cons.prems obtain a' where "find_sub sep xs = Some (a', b)"
      by (auto split: option.splits)
    from Cons.IH [OF this Cons.prems(2)] show ?thesis by simp
  qed
qed

text \<open>
  \<open>s.split(sep)\<close> for a non-empty separator: every occurrence splits, left to right, and
  the result is never empty (\<open>"".split("/")\<close> is \<open>[""]\<close>).  Python raises ValueError on an
  empty separator; the library only passes the literals \<open>"&"\<close>, \<open>"="\<close>, \<open>"/"\<close>,
  \<open>";"\<close> and \<open>", "\<close>.
\<close>

function str_split :: "string \<Rightarrow> string \<Rightarrow> string list" where
  "str_split sep s =
     (if sep = [] then [s]
      else (case find_sub sep s of
              None \<Rightarrow> [s]
            | Some (a, b) \<Rightarrow> a # str_split sep b))"
  by pat_completeness auto
termination
  by (relation "measure (\<lambda>(sep, s). length s)") (auto dest: find_sub_shorter)

text \<open>\<open>s.split(sep, maxsplit=1)\<close>: only the first occurrence splits.\<close>

definition str_split1 :: "string \<Rightarrow> string \<Rightarrow> string list" where
  "str_split1 sep s =
     (case find_sub sep s of
        None \<Rightarrow> [s]
      | Some (a, b) \<Rightarrow> [a, b])"

text \<open>\<open>sep.join(xs)\<close>.\<close>

fun join :: "string \<Rightarrow> string list \<Rightarrow> string" where
  "join sep [] = []"
| "join sep [x] = x"
| "join sep (x # y # zs) = x @ sep @ join sep (y # zs)"

text \<open>\<open>s.replace(old, new)\<close> for a non-empty \<open>old\<close>: left to right, without overlap.\<close>

definition str_replace :: "string \<Rightarrow> string \<Rightarrow> string \<Rightarrow> string" where
  "str_replace old new s = join new (str_split old s)"

text \<open>
  \<open>re.compile(r"( +)").sub(" ", value)\<close>: the scan replaces each maximal run of spaces, as
  the greedy match consumes it whole, by one space, and copies every other character.
\<close>

function multi_space_sub :: "string \<Rightarrow> string" where
  "multi_space_sub [] = []"
| "multi_space_sub (c # cs) =
     (if c = CHR '' '' then CHR '' '' # multi_space_sub (dropWhile (\<lambda>d. d = CHR '' '') cs)
      else c # multi_space_sub cs)"
  by pat_completeness auto
termination
  by (relation "measure length") (auto simp: less_Suc_eq_le length_dropWhile_le)

section \<open>The standard library's \<open>hashlib\<close> and \<open>hmac\<close>\<close>

text \<open>
  SHA-256 as FIPS 180-4 defines it, on 32-bit words, and HMAC as RFC 2104 defines it with
  SHA-256's block of 64 bytes: what \<open>hashlib.sha256\<close> and \<open>hmac.new(key, data,
  hashlib.sha256)\<close> compute.
\<close>

definition K256 :: "u32 list" where
  "K256 = [
    0x428A2F98, 0x71374491, 0xB5C0FBCF, 0xE9B5DBA5, 0x3956C25B, 0x59F111F1, 0x923F82A4, 0xAB1C5ED5,
    0xD807AA98, 0x12835B01, 0x243185BE, 0x550C7DC3, 0x72BE5D74, 0x80DEB1FE, 0x9BDC06A7, 0xC19BF174,
    0xE49B69C1, 0xEFBE4786, 0x0FC19DC6, 0x240CA1CC, 0x2DE92C6F, 0x4A7484AA, 0x5CB0A9DC, 0x76F988DA,
    0x983E5152, 0xA831C66D, 0xB00327C8, 0xBF597FC7, 0xC6E00BF3, 0xD5A79147, 0x06CA6351, 0x14292967,
    0x27B70A85, 0x2E1B2138, 0x4D2C6DFC, 0x53380D13, 0x650A7354, 0x766A0ABB, 0x81C2C92E, 0x92722C85,
    0xA2BFE8A1, 0xA81A664B, 0xC24B8B70, 0xC76C51A3, 0xD192E819, 0xD6990624, 0xF40E3585, 0x106AA070,
    0x19A4C116, 0x1E376C08, 0x2748774C, 0x34B0BCB5, 0x391C0CB3, 0x4ED8AA4A, 0x5B9CCA4F, 0x682E6FF3,
    0x748F82EE, 0x78A5636F, 0x84C87814, 0x8CC70208, 0x90BEFFFA, 0xA4506CEB, 0xBEF9A3F7, 0xC67178F2]"

definition rotr :: "nat \<Rightarrow> u32 \<Rightarrow> u32" where
  "rotr n x = (drop_bit n x) OR (push_bit (32 - n) x)"

definition bsig0 :: "u32 \<Rightarrow> u32" where
  "bsig0 x = rotr 2 x XOR rotr 13 x XOR rotr 22 x"

definition bsig1 :: "u32 \<Rightarrow> u32" where
  "bsig1 x = rotr 6 x XOR rotr 11 x XOR rotr 25 x"

definition ssig0 :: "u32 \<Rightarrow> u32" where
  "ssig0 x = rotr 7 x XOR rotr 18 x XOR drop_bit 3 x"

definition ssig1 :: "u32 \<Rightarrow> u32" where
  "ssig1 x = rotr 17 x XOR rotr 19 x XOR drop_bit 10 x"

definition ch :: "u32 \<Rightarrow> u32 \<Rightarrow> u32 \<Rightarrow> u32" where
  "ch x y z = (x AND y) XOR (NOT x AND z)"

definition maj :: "u32 \<Rightarrow> u32 \<Rightarrow> u32 \<Rightarrow> u32" where
  "maj x y z = (x AND y) XOR (x AND z) XOR (y AND z)"

record sha_state =
  wa :: u32
  wb :: u32
  wc :: u32
  wd :: u32
  we :: u32
  wf :: u32
  wg :: u32
  wh :: u32

definition sha_init :: sha_state where
  "sha_init = \<lparr>wa = 0x6A09E667, wb = 0xBB67AE85, wc = 0x3C6EF372, wd = 0xA54FF53A,
               we = 0x510E527F, wf = 0x9B05688C, wg = 0x1F83D9AB, wh = 0x5BE0CD19\<rparr>"

definition sha_round :: "u32 \<times> u32 \<Rightarrow> sha_state \<Rightarrow> sha_state" where
  "sha_round kw s =
     (let t1 = wh s + bsig1 (we s) + ch (we s) (wf s) (wg s) + fst kw + snd kw;
          t2 = bsig0 (wa s) + maj (wa s) (wb s) (wc s)
      in \<lparr>wa = t1 + t2, wb = wa s, wc = wb s, wd = wc s,
          we = wd s + t1, wf = we s, wg = wf s, wh = wg s\<rparr>)"

definition be32 :: "byte list \<Rightarrow> u32" where
  "be32 bs = foldl (\<lambda>acc b. push_bit 8 acc OR ucast b) 0 bs"

definition u32_bytes :: "u32 \<Rightarrow> byte list" where
  "u32_bytes w = [ucast (drop_bit 24 w), ucast (drop_bit 16 w), ucast (drop_bit 8 w), ucast w]"

text \<open>The first \<open>k\<close> consecutive pieces of \<open>n\<close> elements each.\<close>

fun chunks :: "nat \<Rightarrow> nat \<Rightarrow> 'a list \<Rightarrow> 'a list list" where
  "chunks 0 n xs = []"
| "chunks (Suc k) n xs = take n xs # chunks k n (drop n xs)"

definition extend_schedule :: "u32 list \<Rightarrow> u32 list" where
  "extend_schedule w =
     w @ [ssig1 (w ! (length w - 2)) + w ! (length w - 7)
          + ssig0 (w ! (length w - 15)) + w ! (length w - 16)]"

definition schedule :: "byte list \<Rightarrow> u32 list" where
  "schedule block = (extend_schedule ^^ 48) (map be32 (chunks 16 4 block))"

definition compress :: "sha_state \<Rightarrow> byte list \<Rightarrow> sha_state" where
  "compress s block =
     (let r = fold sha_round (zip K256 (schedule block)) s
      in \<lparr>wa = wa s + wa r, wb = wb s + wb r, wc = wc s + wc r, wd = wd s + wd r,
          we = we s + we r, wf = wf s + wf r, wg = wg s + wg r, wh = wh s + wh r\<rparr>)"

text \<open>
  Padding: the byte \<open>0x80\<close>, zeros up to 56 modulo 64, and the length in bits as a
  big-endian 64-bit word.
\<close>

definition sha_pad :: "byte list \<Rightarrow> byte list" where
  "sha_pad m =
     m @ [0x80] @ replicate ((119 - length m mod 64) mod 64) 0
       @ map (\<lambda>i. ucast (drop_bit (8 * (7 - i)) (word_of_nat (length m) * 8 :: 64 word)))
           [0..<8]"

definition sha256 :: "byte list \<Rightarrow> byte list" where
  "sha256 m =
     (let p = sha_pad m; s = foldl compress sha_init (chunks (length p div 64) 64 p)
      in concat (map u32_bytes [wa s, wb s, wc s, wd s, we s, wf s, wg s, wh s]))"

definition hex_digit :: "nat \<Rightarrow> char" where
  "hex_digit n = ''0123456789abcdef'' ! (n mod 16)"

text \<open>\<open>hexdigest()\<close>: two lower-case hexadecimal digits for each byte.\<close>

definition hex :: "byte list \<Rightarrow> string" where
  "hex bs = concat (map (\<lambda>b. [hex_digit (unat b div 16), hex_digit (unat b mod 16)]) bs)"

definition hmac_sha256 :: "byte list \<Rightarrow> byte list \<Rightarrow> byte list" where
  "hmac_sha256 key msg =
     (let k0 = (if length key > 64 then sha256 key else key);
          k = k0 @ replicate (64 - length k0) 0
      in sha256 (map (\<lambda>b. b XOR 0x5c) k @ sha256 (map (\<lambda>b. b XOR 0x36) k @ msg)))"

section \<open>Other collaborators: UTF-8, \<open>urllib\<close>, \<open>datetime\<close>, \<open>multidict\<close>\<close>

subsection \<open>\<open>bytes.decode()\<close>\<close>

definition is_cont :: "byte \<Rightarrow> bool" where
  "is_cont b = (0x80 \<le> b \<and> b \<le> 0xBF)"

text \<open>
  The length of the well-formed UTF-8 sequence at the head of the bytes, 0 when there is
  none (an overlong form, a surrogate, a code point past U+10FFFF, a missing continuation).
\<close>

definition utf8_seq_len :: "byte list \<Rightarrow> nat" where
  "utf8_seq_len bs =
     (case bs of
        [] \<Rightarrow> 0
      | b # r \<Rightarrow>
          if b \<le> 0x7F then 1
          else if 0xC2 \<le> b \<and> b \<le> 0xDF then
            (case r of c1 # _ \<Rightarrow> if is_cont c1 then 2 else 0 | _ \<Rightarrow> 0)
          else if 0xE0 \<le> b \<and> b \<le> 0xEF then
            (case r of
               c1 # c2 # _ \<Rightarrow>
                 if is_cont c1 \<and> is_cont c2 \<and> (b = 0xE0 \<longrightarrow> 0xA0 \<le> c1)
                    \<and> (b = 0xED \<longrightarrow> c1 \<le> 0x9F) then 3 else 0
             | _ \<Rightarrow> 0)
          else if 0xF0 \<le> b \<and> b \<le> 0xF4 then
            (case r of
               c1 # c2 # c3 # _ \<Rightarrow>
                 if is_cont c1 \<and> is_cont c2 \<and> is_cont c3 \<and> (b = 0xF0 \<longrightarrow> 0x90 \<le> c1)
                    \<and> (b = 0xF4 \<longrightarrow> c1 \<le> 0x8F) then 4 else 0
             | _ \<Rightarrow> 0)
          else 0)"

function valid_utf8 :: "byte list \<Rightarrow> bool" where
  "valid_utf8 bs =
     (if bs = [] then True
      else if utf8_seq_len bs = 0 then False
      else valid_utf8 (drop (utf8_seq_len bs) bs))"
  by pat_completeness auto
termination
  by (relation "measure length") auto

definition decode :: "byte list \<Rightarrow> error + string" where
  "decode bs = (if valid_utf8 bs then Inr (map (\<lambda>b. char_of (unat b)) bs) else Inl UnicodeDecodeError)"

subsection \<open>\<open>urllib.parse\<close>\<close>

text \<open>
  What \<open>urlparse\<close> returns, as far as the library reads it.  \<open>urlparse\<close> itself is a
  parameter of \<open>sign_request\<close>; it raises ValueError on some malformed URLs.  The query of
  a URL object handed to \<open>generate_challenge\<close> may be bytes, text or None.
\<close>

record parsed_url =
  scheme :: string
  path :: string
  query :: py_data

definition always_safe :: "char \<Rightarrow> bool" where
  "always_safe c =
     ((CHR ''A'' \<le> c \<and> c \<le> CHR ''Z'') \<or> (CHR ''a'' \<le> c \<and> c \<le> CHR ''z'')
      \<or> (CHR ''0'' \<le> c \<and> c \<le> CHR ''9'') \<or> c \<in> set ''_.-~'')"

definition hex_digit_upper :: "nat \<Rightarrow> char" where
  "hex_digit_upper n = ''0123456789ABCDEF'' ! (n mod 16)"

text \<open>
  \<open>urllib.parse.quote(s, safe)\<close>: every byte of the UTF-8 encoding that is not a letter,
  a digit, one of \<open>_.-~\<close> or a character of \<open>safe\<close> becomes \<open>%XX\<close>.
\<close>

definition urllib_quote :: "string \<Rightarrow> string \<Rightarrow> string" where
  "urllib_quote s safe =
     concat (map (\<lambda>c. if always_safe c \<or> c \<in> set safe then [c]
                       else [CHR ''%'', hex_digit_upper (of_char c div 16),
                             hex_digit_upper (of_char c mod 16)]) s)"

subsection \<open>\<open>datetime\<close>\<close>

text \<open>
  A \<open>datetime\<close> has its calendar fields and a \<open>tzinfo\<close>, here the UTC offset in
  microseconds at that instant, or None for a naive value.  \<open>to_micro\<close> is the reading of
  the fields in microseconds since 1970-01-01T00:00:00 (proleptic Gregorian calendar), and
  \<open>from_micro\<close> its inverse, with no \<open>tzinfo\<close>.
\<close>

record datetime =
  year :: nat
  month :: nat
  day :: nat
  hour :: nat
  minute :: nat
  second :: nat
  microsecond :: nat
  tzinfo :: "int option"

definition days_from_civil :: "int \<Rightarrow> int \<Rightarrow> int \<Rightarrow> int" where
  "days_from_civil y m d =
     (let y' = (if m \<le> 2 then y - 1 else y);
          era = y' div 400;
          yoe = y' - era * 400;
          doy = (153 * (if m > 2 then m - 3 else m + 9) + 2) div 5 + d - 1;
          doe = yoe * 365 + yoe div 4 - yoe div 100 + doy
      in era * 146097 + doe - 719468)"

definition civil_from_days :: "int \<Rightarrow> int \<times> int \<times> int" where
  "civil_from_days z =
     (let z' = z + 719468;
          era = z' div 146097;
          doe = z' - era * 146097;
          yoe = (doe - doe div 1460 + doe div 36524 - doe div 146096) div 365;
          doy = doe - (365 * yoe + yoe div 4 - yoe div 100);
          mp = (5 * doy + 2) div 153;
          d = doy - (153 * mp + 2) div 5 + 1;
          m = (if mp < 10 then mp + 3 else mp - 9);
          y = yoe + era * 400
      in (if m \<le> 2 then y + 1 else y, m, d))"

definition to_micro :: "datetime \<Rightarrow> int" where
  "to_micro v =
     (((days_from_civil (int (year v)) (int (month v)) (int (day v)) * 24 + int (hour v)) * 60
        + int (minute v)) * 60 + int (second v)) * 1000000 + int (microsecond v)"

definition from_micro :: "int \<Rightarrow> datetime" where
  "from_micro t =
     (let us = t mod 1000000; s = t div 1000000;
          days = s div 86400; sod = s mod 86400;
          (y, m, d) = civil_from_days days
      in \<lparr>year = nat y, month = nat m, day = nat d, hour = nat (sod div 3600),
          minute = nat (sod mod 3600 div 60), second = nat (sod mod 60),
          microsecond = nat us, tzinfo = None\<rparr>)"

text \<open>The range of \<open>datetime\<close>: 0001-01-01T00:00:00 to 9999-12-31T23:59:59.999999.\<close>

definition datetime_min :: int where
  "datetime_min = to_micro \<lparr>year = 1, month = 1, day = 1, hour = 0, minute = 0, second = 0,
                             microsecond = 0, tzinfo = None\<rparr>"

definition datetime_max :: int where
  "datetime_max = to_micro \<lparr>year = 9999, month = 12, day = 31, hour = 23, minute = 59,
                             second = 59, microsecond = 999999, tzinfo = None\<rparr>"

text \<open>
  \<open>value.astimezone(datetime.timezone.utc)\<close> for an aware value with offset \<open>off\<close>:
  the reading less the offset, with OverflowError out of the range of \<open>datetime\<close>.
\<close>

definition astimezone_utc :: "datetime \<Rightarrow> int \<Rightarrow> error + datetime" where
  "astimezone_utc v off =
     (let t = to_micro v - off
      in if t < datetime_min \<or> datetime_max < t then Inl OverflowError
         else Inr ((from_micro t)\<lparr>tzinfo := Some 0\<rparr>))"

definition digit_char :: "nat \<Rightarrow> char" where
  "digit_char n = char_of (48 + n mod 10)"

definition pad2 :: "nat \<Rightarrow> string" where
  "pad2 n = [digit_char (n div 10), digit_char n]"

text \<open>A number in decimal, with no padding.\<close>

function dec :: "nat \<Rightarrow> string" where
  "dec n = (if n < 10 then [digit_char n] else dec (n div 10) @ [digit_char n])"
  by pat_completeness auto
termination
  by (relation "measure (\<lambda>n. n)") auto

declare dec.simps [simp del]

text \<open>
  \<open>strftime\<close> with the two formats the library uses.  \<open>%Y\<close> is the year in decimal:
  the C library that CPython calls on Linux does not pad a year below 1000 to four digits
  (the year 999 gives \<open>999\<close>); from 1000 on the year has its four digits.  The other
  fields have two digits each.
\<close>

definition strftime_amz :: "datetime \<Rightarrow> string" where
  "strftime_amz v =
     dec (year v) @ pad2 (month v) @ pad2 (day v) @ ''T''
       @ pad2 (hour v) @ pad2 (minute v) @ pad2 (second v) @ ''Z''"

definition strftime_date :: "datetime \<Rightarrow> string" where
  "strftime_date v = dec (year v) @ pad2 (month v) @ pad2 (day v)"

subsection \<open>\<open>multidict.CIMultiDict\<close>\<close>

text \<open>
  The header mapping: the entries in insertion order, several of them possibly under one
  name, with names compared after \<open>lower()\<close>.  A value is text; the canonicalizers also
  accept a list or tuple of texts, so a value is one or the other.
\<close>

datatype hvalue = Single string | Many "string list"

type_synonym CIMultiDict = "(string \<times> hvalue) list"

text \<open>\<open>headers.get(key)\<close>: the value of the first entry under the name, or None.\<close>

definition cim_get :: "CIMultiDict \<Rightarrow> string \<Rightarrow> hvalue option" where
  "cim_get headers key = map_option snd (find (\<lambda>kv. lower (fst kv) = lower key) headers)"

text \<open>\<open>headers[key]\<close>: KeyError when no entry has the name.\<close>

definition cim_getitem :: "CIMultiDict \<Rightarrow> string \<Rightarrow> error + hvalue" where
  "cim_getitem headers key =
     (case cim_get headers key of
        None \<Rightarrow> Inl (KeyError key)
      | Some v \<Rightarrow> Inr v)"

text \<open>\<open>key in headers\<close>.\<close>

definition cim_contains :: "CIMultiDict \<Rightarrow> string \<Rightarrow> bool" where
  "cim_contains headers key = list_ex (\<lambda>kv. lower (fst kv) = lower key) headers"

text \<open>
  \<open>headers[key] = value\<close>: the first entry under the name is replaced where it stands and
  the later ones under that name are removed; with no such entry, a new one is appended.
\<close>

fun cim_setitem :: "CIMultiDict \<Rightarrow> string \<Rightarrow> hvalue \<Rightarrow> CIMultiDict" where
  "cim_setitem [] key v = [(key, v)]"
| "cim_setitem ((k, w) # headers) key v =
     (if lower k = lower key
      then (key, v) # filter (\<lambda>kv. lower (fst kv) \<noteq> lower key) headers
      else (k, w) # cim_setitem headers key v)"

section \<open>The library\<close>

record Challenge =
  scope :: string
  string_to_sign :: string
  signature :: string
  access_key_id :: "string option"

definition nl :: string where
  "nl = [CHR 0x0A]"

definition UNSIGNED_PAYLOAD :: string where
  "UNSIGNED_PAYLOAD = ''UNSIGNED-PAYLOAD''"

text \<open>
  \<open>_parse_authorization\<close>.  The dict \<open>data\<close>, filled by the loop \<open>auth_data\<close>, is an
  association list: a later pair under a key replaces the earlier one.  A key that is missing raises Python's KeyError, in the
  order the returned tuple reads the three keys.
\<close>

definition auth_data :: "string list \<Rightarrow> (string \<times> string) list" where
  "auth_data parts =
     fold (\<lambda>part data.
             let (k, _, v) = str_partition ''='' part
             in AList.update (lower k) v data) parts []"

definition parse_authorization :: "string \<Rightarrow> error + (string \<times> string \<times> string \<times> string)" where
  "parse_authorization authorization =
     (let (auth_type, _, credentials) = str_partition '' '' authorization;
          parts = str_split '', '' credentials;
          data = auth_data parts
      in case map_of data ''credential'' of
           None \<Rightarrow> Inl (KeyError ''credential'')
         | Some credential \<Rightarrow>
             (case map_of data ''signedheaders'' of
                None \<Rightarrow> Inl (KeyError ''signedheaders'')
              | Some signed_headers \<Rightarrow>
                  (case map_of data ''signature'' of
                     None \<Rightarrow> Inl (KeyError ''signature'')
                   | Some sig \<Rightarrow> Inr (auth_type, credential, signed_headers, sig))))"

text \<open>
  \<open>_parse_key_date\<close>.  The clock reading \<open>now\<close> (UTC, in microseconds since 1970) and
  \<open>dateutil\<close>'s \<open>parser.parse\<close> are parameters.  \<open>parse\<close> raises on text it cannot
  read, and on a value that is not text; subtracting a naive value from the aware \<open>now\<close>
  raises TypeError.  \<open>total_seconds()\<close> is the difference in microseconds over \<open>10^6\<close>,
  so that \<open>abs(delta) > 5\<close> compares the microseconds with five million.
\<close>

definition parse_key_date ::
  "int \<Rightarrow> (string \<Rightarrow> error + datetime) \<Rightarrow> CIMultiDict \<Rightarrow> error + string" where
  "parse_key_date now parse headers =
     (case cim_get headers ''x-amz-date'' of
        None \<Rightarrow> Inl MissingHeaderError
      | Some (Many _) \<Rightarrow> Inl TypeError
      | Some (Single key_date) \<Rightarrow>
          (case parse key_date of
             Inl e \<Rightarrow> Inl e
           | Inr header \<Rightarrow>
               (case tzinfo header of
                  None \<Rightarrow> Inl TypeError
                | Some off \<Rightarrow>
                    (let delta = now - (to_micro header - off)
                     in if \<bar>delta\<bar> > 5000000 then Inl InvalidDateError
                        else Inr key_date))))"

definition sha256_hash :: "py_data \<Rightarrow> string" where
  "sha256_hash data =
     (let data' = (case data of NoneVal \<Rightarrow> [] | Str s \<Rightarrow> encode s | Bytes b \<Rightarrow> b)
      in hex (sha256 data'))"

text \<open>\<open>_hmac_hash(key, data)\<close>, and \<open>_hmac_hash(key, data, hexdigest=True)\<close>.\<close>

definition hmac_hash :: "byte list \<Rightarrow> byte list \<Rightarrow> byte list" where
  "hmac_hash key data = hmac_sha256 key data"

definition hmac_hash_hex :: "byte list \<Rightarrow> byte list \<Rightarrow> string" where
  "hmac_hash_hex key data = hex (hmac_sha256 key data)"

text \<open>\<open>_quote(resource)\<close>, with its default \<open>safe="/"\<close>.\<close>

definition quote :: "string \<Rightarrow> string" where
  "quote resource = str_replace ''%7E'' ''~'' (urllib_quote resource ''/'')"

definition to_utc :: "datetime \<Rightarrow> error + datetime" where
  "to_utc v =
     (case tzinfo v of
        Some off \<Rightarrow> map_sum id (\<lambda>u. u\<lparr>tzinfo := None\<rparr>) (astimezone_utc v off)
      | None \<Rightarrow> Inr v)"

definition to_amz_date :: "datetime \<Rightarrow> error + string" where
  "to_amz_date v = map_sum id strftime_amz (to_utc v)"

definition to_signer_date :: "datetime \<Rightarrow> error + string" where
  "to_signer_date v = map_sum id strftime_date (to_utc v)"

subsection \<open>Canonicalization\<close>

text \<open>
  The value both header canonicalizers store under a name: a list or tuple of values is
  taken as it is and a single value as a list of one; each is passed through the
  multi-space substitution, and they are joined with a comma.
\<close>

definition canonical_value :: "hvalue \<Rightarrow> string" where
  "canonical_value values =
     (let values' = (case values of Many vs \<Rightarrow> vs | Single v \<Rightarrow> [v])
      in join '','' (map multi_space_sub values'))"

definition excluded_headers :: "string list" where
  "excluded_headers =
     [''authorization'', ''user-agent'', ''accept'', ''accept-encoding'', ''connection'']"

text \<open>
  The loop of \<open>_generate_canonical_headers\<close> over \<open>headers.items()\<close>, filling the dict
  \<open>canonical_headers\<close>: a later entry under a lower-cased name replaces the earlier one.
\<close>

definition canonical_headers_dict :: "CIMultiDict \<Rightarrow> (string \<times> string) list" where
  "canonical_headers_dict headers =
     fold (\<lambda>(key, values) d.
             let key' = lower key
             in if key' \<notin> set excluded_headers
                then AList.update key' (canonical_value values) d else d)
       headers []"

definition header_line :: "string \<times> string \<Rightarrow> string" where
  "header_line kv = fst kv @ '':'' @ snd kv"

definition generate_canonical_headers :: "CIMultiDict \<Rightarrow> string \<times> string" where
  "generate_canonical_headers headers =
     (let canonical_headers = sort (canonical_headers_dict headers);
          signed_headers = join '';'' (map fst canonical_headers)
      in (join nl (map header_line canonical_headers), signed_headers))"

text \<open>The loop of \<open>_recreate_canonical_headers\<close>: the names kept are those of the list.\<close>

definition recreate_headers_dict :: "CIMultiDict \<Rightarrow> string \<Rightarrow> (string \<times> string) list" where
  "recreate_headers_dict headers signed_headers =
     (let signed_headers' = str_split '';'' signed_headers
      in fold (\<lambda>(key, values) d.
                 let key' = lower key
                 in if key' \<in> set signed_headers'
                    then AList.update key' (canonical_value values) d else d)
           headers [])"

definition recreate_canonical_headers :: "CIMultiDict \<Rightarrow> string \<Rightarrow> string" where
  "recreate_canonical_headers headers signed_headers =
     join nl (map header_line (sort (recreate_headers_dict headers signed_headers)))"

text \<open>\<open>query or ""\<close>, decoded when it is bytes.\<close>

definition query_text :: "py_data \<Rightarrow> error + string" where
  "query_text q =
     (case q of
        NoneVal \<Rightarrow> Inr []
      | Str s \<Rightarrow> Inr s
      | Bytes b \<Rightarrow> if b = [] then Inr [] else decode b)"

text \<open>
  \<open>_generate_canonical_query_string\<close>.  \<open>sorted\<close> compares the lists that
  \<open>params.split("=")\<close> returns, element by element.
\<close>

definition generate_canonical_query_string :: "py_data \<Rightarrow> error + string" where
  "generate_canonical_query_string q =
     (case query_text q of
        Inl e \<Rightarrow> Inl e
      | Inr query' \<Rightarrow>
          Inr (join ''&''
                 (map (join ''='') (sort (map (str_split ''='') (str_split ''&'' query'))))))"

definition canonical_request ::
  "string \<Rightarrow> string \<Rightarrow> string \<Rightarrow> string \<Rightarrow> string \<Rightarrow> string \<Rightarrow> string" where
  "canonical_request method path' canonical_query_string canonical_headers signed_headers
       content_sha256 =
     method @ nl @ path' @ nl @ canonical_query_string @ nl @ canonical_headers @ nl @ nl
       @ signed_headers @ nl @ content_sha256"

definition generate_canonical_request_hash ::
  "string \<Rightarrow> parsed_url \<Rightarrow> CIMultiDict \<Rightarrow> string \<Rightarrow> error + (string \<times> string)" where
  "generate_canonical_request_hash method url headers content_sha256 =
     (let (canonical_headers, signed_headers) = generate_canonical_headers headers
      in case generate_canonical_query_string (query url) of
           Inl e \<Rightarrow> Inl e
         | Inr canonical_query_string \<Rightarrow>
             (let path' = quote (if path url = [] then ''/'' else path url)
              in Inr (sha256_hash (Str (canonical_request method path' canonical_query_string
                                          canonical_headers signed_headers content_sha256)),
                      signed_headers)))"

definition recreate_canonical_request_hash ::
  "string \<Rightarrow> parsed_url \<Rightarrow> CIMultiDict \<Rightarrow> string \<Rightarrow> string \<Rightarrow> error + string" where
  "recreate_canonical_request_hash method url headers signed_headers content_sha256 =
     (let canonical_headers = recreate_canonical_headers headers signed_headers
      in case generate_canonical_query_string (query url) of
           Inl e \<Rightarrow> Inl e
         | Inr canonical_query_string \<Rightarrow>
             (let path' = quote (if path url = [] then ''/'' else path url)
              in Inr (sha256_hash (Str (canonical_request method path' canonical_query_string
                                          canonical_headers signed_headers content_sha256)))))"

subsection \<open>Challenge, signing key, signature\<close>

text \<open>
  \<open>generate_challenge\<close>, with the clock and the date parser of \<open>_parse_key_date\<close> as
  parameters.  An Authorization value that is not text has no \<open>partition\<close>
  (AttributeError); the two unpackings raise ValueError when the split does not have the
  number of parts they name.
\<close>

definition generate_challenge ::
  "int \<Rightarrow> (string \<Rightarrow> error + datetime) \<Rightarrow> string \<Rightarrow> parsed_url \<Rightarrow> CIMultiDict \<Rightarrow> py_data
     \<Rightarrow> error + Challenge" where
  "generate_challenge now parse method url headers content =
     (case cim_getitem headers ''Authorization'' of
        Inl e \<Rightarrow> Inl e
      | Inr (Many _) \<Rightarrow> Inl AttributeError
      | Inr (Single authorization) \<Rightarrow>
     (case parse_authorization authorization of
        Inl e \<Rightarrow> Inl e
      | Inr (auth_type, credential, signed_headers, sig) \<Rightarrow>
     (let content_sha256 =
            (if (case cim_get headers ''x-amz-content-sha256'' of
                   None \<Rightarrow> Single UNSIGNED_PAYLOAD | Some v \<Rightarrow> v) \<noteq> Single UNSIGNED_PAYLOAD
             then sha256_hash content else UNSIGNED_PAYLOAD)
      in case str_split1 ''/'' credential of
           [key_id, scope'] \<Rightarrow>
             (case butlast (str_split ''/'' scope') of
                [date, region, service_name] \<Rightarrow>
                  (case parse_key_date now parse headers of
                     Inl e \<Rightarrow> Inl e
                   | Inr key_date \<Rightarrow>
                  (case recreate_canonical_request_hash method url headers signed_headers
                          content_sha256 of
                     Inl e \<Rightarrow> Inl e
                   | Inr canonical_request_hash \<Rightarrow>
                       Inr \<lparr>scope = scope',
                            string_to_sign = auth_type @ nl @ key_date @ nl @ scope' @ nl
                              @ canonical_request_hash,
                            signature = sig,
                            access_key_id = Some key_id\<rparr>))
              | _ \<Rightarrow> Inl ValueError)
         | _ \<Rightarrow> Inl ValueError)))"

definition generate_signing_key :: "string \<Rightarrow> string \<Rightarrow> string \<Rightarrow> string \<Rightarrow> byte list" where
  "generate_signing_key secret_access_key date region service_name =
     (let date_key = hmac_hash (encode (''AWS4'' @ secret_access_key)) (encode date);
          date_region_key = hmac_hash date_key (encode region);
          date_region_service_key = hmac_hash date_region_key (encode service_name)
      in hmac_hash date_region_service_key (encode ''aws4_request''))"

definition generate_signature :: "byte list \<Rightarrow> string \<Rightarrow> string" where
  "generate_signature signing_key sts = hmac_hash_hex signing_key (encode sts)"

definition validate_challenge :: "Challenge \<Rightarrow> string \<Rightarrow> error + unit" where
  "validate_challenge challenge secret_access_key =
     (case butlast (str_split ''/'' (scope challenge)) of
        [date, region, service_name] \<Rightarrow>
          (let signing_key = generate_signing_key secret_access_key date region service_name;
               sig = generate_signature signing_key (string_to_sign challenge)
           in if sig \<noteq> signature challenge then Inl InvalidSignatureError else Inr ())
      | _ \<Rightarrow> Inl ValueError)"

subsection \<open>Signing\<close>

text \<open>
  \<open>sign_request\<close>, with \<open>urllib.parse.urlparse\<close> as a parameter.  The returned mapping
  is the caller's, after the two assignments.
\<close>

definition sign_request ::
  "(string \<Rightarrow> error + parsed_url) \<Rightarrow> string \<Rightarrow> string \<Rightarrow> string \<Rightarrow> string \<Rightarrow> CIMultiDict
     \<Rightarrow> py_data \<Rightarrow> string \<Rightarrow> string \<Rightarrow> datetime \<Rightarrow> error + CIMultiDict" where
  "sign_request urlparse service_name method url region headers content key_id
       secret_access_key date =
     (case urlparse url of
        Inl e \<Rightarrow> Inl e
      | Inr url' \<Rightarrow>
     (let content_sha256 =
            (if scheme url' = ''http'' then sha256_hash content else UNSIGNED_PAYLOAD);
          content_header = ''x-amz-content-sha256'';
          headers' = (if \<not> cim_contains headers content_header
                      then cim_setitem headers content_header (Single content_sha256)
                      else headers)
      in case to_signer_date date of
           Inl e \<Rightarrow> Inl e
         | Inr signer_date \<Rightarrow>
     (let scope' = signer_date @ ''/'' @ region @ ''/'' @ service_name @ ''/aws4_request''
      in case generate_canonical_request_hash method url' headers' content_sha256 of
           Inl e \<Rightarrow> Inl e
         | Inr (canonical_request_hash, signed_headers) \<Rightarrow>
     (case to_amz_date date of
        Inl e \<Rightarrow> Inl e
      | Inr amz_date \<Rightarrow>
     (let sts = ''AWS4-HMAC-SHA256'' @ nl @ amz_date @ nl @ scope' @ nl
                  @ canonical_request_hash;
          signing_key = generate_signing_key secret_access_key signer_date region service_name;
          sig = generate_signature signing_key sts
      in Inr (cim_setitem headers' ''Authorization''
                (Single (''AWS4-HMAC-SHA256 Credential='' @ key_id @ ''/'' @ scope'
                         @ '', SignedHeaders='' @ signed_headers
                         @ '', Signature='' @ sig))))))))"

section \<open>Definitions for the statements\<close>

text \<open>
  The chain as the specification writes it: starting from \<open>"AWS4" + secret\<close>, one HMAC
  for each of the date, the region, the service and the constant \<open>"aws4_request"\<close>.
\<close>

definition spec_signing_key :: "string \<Rightarrow> string \<Rightarrow> string \<Rightarrow> string \<Rightarrow> byte list" where
  "spec_signing_key secret date8 region service =
     foldl (\<lambda>k d. hmac_sha256 k (encode d)) (encode (''AWS4'' @ secret))
       [date8, region, service, ''aws4_request'']"

text \<open>The signature \<open>validate_challenge\<close> derives again from a challenge and a secret.\<close>

definition resign :: "Challenge \<Rightarrow> string \<Rightarrow> string" where
  "resign c k =
     (let parts = str_split ''/'' (scope c)
      in generate_signature (generate_signing_key k (parts ! 0) (parts ! 1) (parts ! 2))
           (string_to_sign c))"

text \<open>
  What \<open>_parse_authorization\<close> finds under a key: of the pairs that follow the first
  space, separated by comma and space, the last one whose name before the first \<open>=\<close>
  is the key when lower-cased; its value is the text after that \<open>=\<close>.
\<close>

definition auth_key :: "string \<Rightarrow> string" where
  "auth_key part = lower (fst (str_partition ''='' part))"

definition auth_val :: "string \<Rightarrow> string" where
  "auth_val part = snd (snd (str_partition ''='' part))"

definition auth_lookup :: "string \<Rightarrow> string \<Rightarrow> string option" where
  "auth_lookup authorization k =
     map_option auth_val
       (find (\<lambda>part. auth_key part = k)
          (rev (str_split '', '' (snd (snd (str_partition '' '' authorization))))))"

text \<open>
  The content hash \<open>generate_challenge\<close> puts in the canonical request, and the condition
  under which it gets as far as the date: the Authorization header is text with the three
  keys, the credential has a slash and the scope after it has four segments.
\<close>

definition challenge_content_sha256 :: "CIMultiDict \<Rightarrow> py_data \<Rightarrow> string" where
  "challenge_content_sha256 headers content =
     (if (case cim_get headers ''x-amz-content-sha256'' of
            None \<Rightarrow> Single UNSIGNED_PAYLOAD | Some v \<Rightarrow> v) \<noteq> Single UNSIGNED_PAYLOAD
      then sha256_hash content else UNSIGNED_PAYLOAD)"

definition reads_credential :: "CIMultiDict \<Rightarrow> bool" where
  "reads_credential headers =
     (case cim_getitem headers ''Authorization'' of
        Inr (Single a) \<Rightarrow>
          (case parse_authorization a of
             Inr (t, cred, sh, sg) \<Rightarrow>
               (case str_split1 ''/'' cred of
                  [kid, sc] \<Rightarrow> length (str_split ''/'' sc) = 4
                | _ \<Rightarrow> False)
           | Inl e \<Rightarrow> False)
      | _ \<Rightarrow> False)"

text \<open>An instant for the examples: 2023-08-09T01:02:03Z.\<close>

definition example_instant :: datetime where
  "example_instant = \<lparr>year = 2023, month = 8, day = 9, hour = 1, minute = 2, second = 3,
                        microsecond = 0, tzinfo = Some 0\<rparr>"

text \<open>
  Both header loops are one fold: over the entries whose lower-cased name is kept, each
  stored under that name with its canonical value.
\<close>

definition headers_dict :: "(string \<Rightarrow> bool) \<Rightarrow> CIMultiDict \<Rightarrow> (string \<times> string) list" where
  "headers_dict keep headers =
     fold (\<lambda>kv d. AList.update (lower (fst kv)) (canonical_value (snd kv)) d)
       (filter (\<lambda>kv. keep (lower (fst kv))) headers) []"

text \<open>
  The normalization as the specification words it: of every run of consecutive spaces only
  one space stays (a space followed by a space is dropped); nothing else changes.
\<close>

fun collapse_runs :: "string \<Rightarrow> string" where
  "collapse_runs (c # d # cs) =
     (if c = CHR '' '' \<and> d = CHR '' '' then collapse_runs (d # cs)
      else c # collapse_runs (d # cs))"
| "collapse_runs cs = cs"


text \<open>
  The steps of \<open>sign_request\<close>: the content hash it signs, the mapping after the
  conditional assignment of \<open>x-amz-content-sha256\<close>, and the scope.
\<close>

definition signer_content_sha256 :: "parsed_url \<Rightarrow> py_data \<Rightarrow> string" where
  "signer_content_sha256 url' content =
     (if scheme url' = ''http'' then sha256_hash content else UNSIGNED_PAYLOAD)"

definition with_content_header :: "CIMultiDict \<Rightarrow> string \<Rightarrow> CIMultiDict" where
  "with_content_header headers content_sha256 =
     (if \<not> cim_contains headers ''x-amz-content-sha256''
      then cim_setitem headers ''x-amz-content-sha256'' (Single content_sha256)
      else headers)"

definition signer_scope :: "string \<Rightarrow> string \<Rightarrow> string \<Rightarrow> string" where
  "signer_scope signer_date region service_name =
     signer_date @ ''/'' @ region @ ''/'' @ service_name @ ''/aws4_request''"

text \<open>
  For the examples: a \<open>urlparse\<close> that returns the parts of
  \<open>http://h/my/path?foo=bar\<close>, and a naive timestamp.
\<close>

definition example_urlparse :: "string \<Rightarrow> error + parsed_url" where
  "example_urlparse u = Inr \<lparr>scheme = ''http'', path = ''/my/path'', query = Str ''foo=bar''\<rparr>"

definition example_date :: datetime where
  "example_date = \<lparr>year = 2023, month = 8, day = 9, hour = 1, minute = 2, second = 3,
                     microsecond = 0, tzinfo = None\<rparr>"

text \<open>
  The canonical query string as the specification words it, in its two readings: each
  parameter split on its first \<open>=\<close> into a name and a value, the pairs sorted by name and
  then value, and rejoined; or the parameters sorted as raw \<open>name=value\<close> texts.
\<close>

definition split_first_eq :: "string \<Rightarrow> string \<times> string" where
  "split_first_eq p = (let (n, _, v) = str_partition ''='' p in (n, v))"

definition spec_query_by_pair :: "string \<Rightarrow> string" where
  "spec_query_by_pair q =
     join ''&'' (map (\<lambda>(n, v). n @ ''='' @ v) (sort (map split_first_eq (str_split ''&'' q))))"

definition spec_query_by_text :: "string \<Rightarrow> string" where
  "spec_query_by_text q = join ''&'' (sort (str_split ''&'' q))"

section \<open>Properties\<close>

declare str_split.simps [simp del]
declare multi_space_sub.simps [simp del]
declare valid_utf8.simps [simp del]

subsection \<open>The signing key\<close>

lemma length_u32_bytes: "length (u32_bytes w) = 4"
  by (simp add: u32_bytes_def)

lemma length_sha256: "length (sha256 m) = 32"
  by (simp add: sha256_def Let_def length_u32_bytes)

lemma length_hmac_sha256: "length (hmac_sha256 key msg) = 32"
  by (simp add: hmac_sha256_def Let_def length_sha256)

text \<open>
  C2.  For every secret, date, region and service name, \<open>generate_signing_key\<close> is the
  four-step HMAC-SHA256 chain from \<open>"AWS4" + secret\<close> through the date, the region and the
  service to the literal \<open>"aws4_request"\<close>, and its value has 32 bytes.
\<close>

theorem generate_signing_key_chain:
  "generate_signing_key secret date8 region service
     = hmac_sha256 (hmac_sha256 (hmac_sha256 (hmac_sha256 (encode (''AWS4'' @ secret))
         (encode date8)) (encode region)) (encode service)) (encode ''aws4_request'')
   \<and> generate_signing_key secret date8 region service
     = spec_signing_key secret date8 region service
   \<and> length (generate_signing_key secret date8 region service) = 32"
  by (simp add: generate_signing_key_def spec_signing_key_def hmac_hash_def Let_def
        length_hmac_sha256)

subsection \<open>Validating a challenge\<close>

lemma butlast_eq_three:
  "(\<exists>a b c. butlast xs = [a, b, c]) \<longleftrightarrow> length xs = 4"
proof
  assume "\<exists>a b c. butlast xs = [a, b, c]"
  then obtain a b c where "butlast xs = [a, b, c]" by blast
  then have "length (butlast xs) = length [a, b, c]" by (rule arg_cong)
  then show "length xs = 4" by simp
next
  assume "length xs = 4"
  then obtain a b c d where "xs = [a, b, c, d]"
    by (auto simp: length_Suc_conv numeral_eq_Suc)
  then show "\<exists>a b c. butlast xs = [a, b, c]" by simp
qed

lemma validate_challenge_unfold:
  "validate_challenge c k =
     (if length (str_split ''/'' (scope c)) = 4
      then (if resign c k \<noteq> signature c then Inl InvalidSignatureError else Inr ())
      else Inl ValueError)"
proof (cases "length (str_split ''/'' (scope c)) = 4")
  case True
  then obtain a b d e where "str_split ''/'' (scope c) = [a, b, d, e]"
    by (auto simp: length_Suc_conv numeral_eq_Suc)
  then show ?thesis
    by (simp add: validate_challenge_def resign_def Let_def)
next
  case False
  then have "\<not> (\<exists>a b d. butlast (str_split ''/'' (scope c)) = [a, b, d])"
    by (simp add: butlast_eq_three)
  then show ?thesis using False
    by (auto simp: validate_challenge_def split: list.splits)
qed

text \<open>
  C8, as the claim states it, fails: a challenge whose scope does not split into four
  segments is neither rejected with InvalidSignatureError nor accepted; the unpacking
  raises ValueError before any signature is derived.
\<close>

theorem validate_challenge_malformed_scope:
  "validate_challenge \<lparr>scope = ''invalid'', string_to_sign = ''x'', signature = ''y'',
       access_key_id = None\<rparr> ''secret-key'' = Inl ValueError
   \<and> validate_challenge \<lparr>scope = ''invalid'', string_to_sign = ''x'', signature = ''y'',
       access_key_id = None\<rparr> ''secret-key'' \<noteq> Inl InvalidSignatureError
   \<and> validate_challenge \<lparr>scope = ''invalid'', string_to_sign = ''x'', signature = ''y'',
       access_key_id = None\<rparr> ''secret-key'' \<noteq> Inr ()"
proof -
  have "str_split ''/'' ''invalid'' = [''invalid'']"
    by code_simp
  then show ?thesis
    by (simp add: validate_challenge_unfold)
qed

text \<open>
  C8, amended.  For every challenge whose scope has exactly four segments between
  slashes, \<open>validate_challenge\<close> raises InvalidSignatureError exactly when the signature
  derived again from the first three segments, the secret and the string to sign differs
  from the challenge's signature, and returns (with no value) exactly when they are equal;
  for every other scope it raises ValueError.
\<close>

theorem validate_challenge_raises_iff:
  "(length (str_split ''/'' (scope c)) = 4 \<longrightarrow>
      (validate_challenge c k = Inl InvalidSignatureError \<longleftrightarrow> resign c k \<noteq> signature c)
      \<and> (validate_challenge c k = Inr () \<longleftrightarrow> resign c k = signature c))
   \<and> (length (str_split ''/'' (scope c)) \<noteq> 4 \<longrightarrow> validate_challenge c k = Inl ValueError)"
  by (simp add: validate_challenge_unfold)

theorem validate_challenge_raises_iff_witness:
  "length (str_split ''/'' (scope \<lparr>scope = ''20230809/ksa/service/aws4_request'',
       string_to_sign = ''x'', signature = ''y'', access_key_id = None\<rparr>)) = 4
   \<and> (validate_challenge \<lparr>scope = ''20230809/ksa/service/aws4_request'',
          string_to_sign = ''x'', signature = ''y'', access_key_id = None\<rparr> ''secret-key''
        = Inl InvalidSignatureError
        \<longleftrightarrow> resign \<lparr>scope = ''20230809/ksa/service/aws4_request'',
          string_to_sign = ''x'', signature = ''y'', access_key_id = None\<rparr> ''secret-key'' \<noteq> ''y'')"
proof -
  have h: "length (str_split ''/'' (scope \<lparr>scope = ''20230809/ksa/service/aws4_request'',
       string_to_sign = ''x'', signature = ''y'', access_key_id = None\<rparr>)) = 4"
    by code_simp
  show ?thesis
    using h validate_challenge_raises_iff
      [of "\<lparr>scope = ''20230809/ksa/service/aws4_request'', string_to_sign = ''x'',
            signature = ''y'', access_key_id = None\<rparr>" "''secret-key''"]
    by simp
qed

text \<open>
  C10.  \<open>validate_challenge\<close> never reads the access key id: two challenges that agree on
  scope, string to sign and signature have the same outcome under every secret, whatever
  their access key ids are.
\<close>

theorem validate_challenge_ignores_access_key_id:
  "scope c1 = scope c2 \<Longrightarrow> string_to_sign c1 = string_to_sign c2
     \<Longrightarrow> signature c1 = signature c2
     \<Longrightarrow> validate_challenge c1 k = validate_challenge c2 k"
  by (simp add: validate_challenge_unfold resign_def)

theorem validate_challenge_ignores_access_key_id_witness:
  "validate_challenge \<lparr>scope = ''20230809/ksa/service/aws4_request'', string_to_sign = ''x'',
       signature = ''y'', access_key_id = None\<rparr> ''secret-key''
   = validate_challenge \<lparr>scope = ''20230809/ksa/service/aws4_request'', string_to_sign = ''x'',
       signature = ''y'', access_key_id = Some ''access-key''\<rparr> ''secret-key''"
  by (rule validate_challenge_ignores_access_key_id) simp_all

subsection \<open>Parsing the Authorization header\<close>

lemma find_append_alt:
  "find P (xs @ ys) = (case find P xs of Some x \<Rightarrow> Some x | None \<Rightarrow> find P ys)"
  by (induction xs) auto

lemma map_of_fold_update:
  "map_of (fold (\<lambda>p d. AList.update (f p) (g p) d) ps d0) k =
     (case find (\<lambda>p. f p = k) (rev ps) of
        Some p \<Rightarrow> Some (g p)
      | None \<Rightarrow> map_of d0 k)"
proof (induction ps arbitrary: d0)
  case Nil
  then show ?case by simp
next
  case (Cons p ps)
  show ?case
    by (simp add: Cons.IH find_append_alt update_conv' split: option.splits)
qed

lemma map_of_auth_data:
  "map_of (auth_data parts) k
     = map_option auth_val (find (\<lambda>part. auth_key part = k) (rev parts))"
proof -
  have "auth_data parts = fold (\<lambda>p d. AList.update (auth_key p) (auth_val p) d) parts []"
    by (simp add: auth_data_def auth_key_def auth_val_def case_prod_beta)
  then show ?thesis
    by (simp add: map_of_fold_update split: option.splits)
qed

lemma parse_authorization_unfold:
  "parse_authorization a =
     (case auth_lookup a ''credential'' of
        None \<Rightarrow> Inl (KeyError ''credential'')
      | Some c \<Rightarrow>
          (case auth_lookup a ''signedheaders'' of
             None \<Rightarrow> Inl (KeyError ''signedheaders'')
           | Some sh \<Rightarrow>
               (case auth_lookup a ''signature'' of
                  None \<Rightarrow> Inl (KeyError ''signature'')
                | Some sg \<Rightarrow> Inr (fst (str_partition '' '' a), c, sh, sg))))"
proof -
  have "map_of (auth_data (str_split '', '' (snd (snd (str_partition '' '' a))))) k
          = auth_lookup a k" for k
    by (simp add: map_of_auth_data auth_lookup_def)
  then show ?thesis
    by (simp add: parse_authorization_def Let_def case_prod_beta split: option.splits)
qed

text \<open>
  C5, as the claim states it, fails: with no \<open>signature\<close> pair the function raises
  Python's KeyError, which is not an error of the library's taxonomy (the library has no
  MissingField error, and its MissingHeaderError is not raised here).
\<close>

theorem parse_authorization_no_signature:
  "parse_authorization
       ''AWS4-HMAC-SHA256 Credential=key/20230809/ksa/iam/aws4_request, SignedHeaders=host''
     = Inl (KeyError ''signature'')
   \<and> \<not> is_AWS4Exception (KeyError ''signature'')"
  by code_simp

text \<open>
  C5, amended.  Parsing splits on the first space into the authorization type and the
  pairs, separated by comma and space, each read as a key (lower-cased) before its first
  \<open>=\<close> and a value after it, a later pair replacing an earlier one under the same key.
  When \<open>credential\<close>, \<open>signedheaders\<close> and \<open>signature\<close> are all present the four
  texts are returned; otherwise Python's KeyError is raised for the first of the three, in
  that order, that is absent, and no failure is an error of the library's taxonomy.
\<close>

theorem parse_authorization_missing_key:
  "parse_authorization a =
     (case auth_lookup a ''credential'' of
        None \<Rightarrow> Inl (KeyError ''credential'')
      | Some c \<Rightarrow>
          (case auth_lookup a ''signedheaders'' of
             None \<Rightarrow> Inl (KeyError ''signedheaders'')
           | Some sh \<Rightarrow>
               (case auth_lookup a ''signature'' of
                  None \<Rightarrow> Inl (KeyError ''signature'')
                | Some sg \<Rightarrow> Inr (fst (str_partition '' '' a), c, sh, sg))))
   \<and> (\<forall>e. parse_authorization a = Inl e \<longrightarrow> \<not> is_AWS4Exception e)"
  by (auto simp: parse_authorization_unfold split: option.splits)

theorem parse_authorization_missing_key_witness:
  "parse_authorization ''AWS4-HMAC-SHA256 SignedHeaders=host, Signature=00''
     = Inl (KeyError ''credential'')
   \<and> \<not> is_AWS4Exception (KeyError ''credential'')"
proof -
  have h: "parse_authorization ''AWS4-HMAC-SHA256 SignedHeaders=host, Signature=00''
             = Inl (KeyError ''credential'')"
    by code_simp
  from parse_authorization_missing_key
         [of "''AWS4-HMAC-SHA256 SignedHeaders=host, Signature=00''"]
  have "\<not> is_AWS4Exception (KeyError ''credential'')"
    using h by blast
  with h show ?thesis by simp
qed

subsection \<open>The date of a challenge\<close>

lemma reads_credentialD:
  assumes "reads_credential headers"
  shows "\<exists>a t cred sh sg kid sc.
           cim_getitem headers ''Authorization'' = Inr (Single a)
           \<and> parse_authorization a = Inr (t, cred, sh, sg)
           \<and> str_split1 ''/'' cred = [kid, sc]
           \<and> length (str_split ''/'' sc) = 4"
proof (cases "cim_getitem headers ''Authorization''")
  case (Inl e)
  with assms show ?thesis by (simp add: reads_credential_def)
next
  case (Inr v)
  show ?thesis
  proof (cases v)
    case (Many vs)
    with Inr assms show ?thesis by (simp add: reads_credential_def)
  next
    case (Single a)
    show ?thesis
    proof (cases "parse_authorization a")
      case (Inl e)
      with Inr Single assms show ?thesis by (simp add: reads_credential_def)
    next
      case pa: (Inr q)
      obtain t cred sh sg where q: "q = (t, cred, sh, sg)" by (cases q) auto
      from assms Inr Single pa q
      have c: "(case str_split1 ''/'' cred of
                  [kid, sc] \<Rightarrow> length (str_split ''/'' sc) = 4 | _ \<Rightarrow> False)"
        by (simp add: reads_credential_def)
      then obtain kid sc where "str_split1 ''/'' cred = [kid, sc]"
        "length (str_split ''/'' sc) = 4"
        by (auto split: list.splits)
      with Inr Single pa q show ?thesis by blast
    qed
  qed
qed

lemma parse_key_date_cases:
  "parse_key_date now parse headers =
     (case cim_get headers ''x-amz-date'' of
        None \<Rightarrow> Inl MissingHeaderError
      | Some (Many vs) \<Rightarrow> Inl TypeError
      | Some (Single key_date) \<Rightarrow>
          (case parse key_date of
             Inl e \<Rightarrow> Inl e
           | Inr header \<Rightarrow>
               (case tzinfo header of
                  None \<Rightarrow> Inl TypeError
                | Some off \<Rightarrow>
                    if 5000000 < \<bar>now - (to_micro header - off)\<bar> then Inl InvalidDateError
                    else Inr key_date)))"
  by (simp add: parse_key_date_def Let_def split: option.splits hvalue.splits sum.splits)

lemma generate_challenge_after_auth:
  assumes "cim_getitem headers ''Authorization'' = Inr (Single a)"
    and "parse_authorization a = Inr (t, cred, sh, sg)"
    and "str_split1 ''/'' cred = [kid, sc]"
    and "length (str_split ''/'' sc) = 4"
  shows "generate_challenge now parse method url headers content =
     (case parse_key_date now parse headers of
        Inl e \<Rightarrow> Inl e
      | Inr key_date \<Rightarrow>
          (case recreate_canonical_request_hash method url headers sh
                  (challenge_content_sha256 headers content) of
             Inl e \<Rightarrow> Inl e
           | Inr h \<Rightarrow>
               Inr \<lparr>scope = sc, string_to_sign = t @ nl @ key_date @ nl @ sc @ nl @ h,
                    signature = sg, access_key_id = Some kid\<rparr>))"
proof -
  from assms(4) obtain d r s z where "str_split ''/'' sc = [d, r, s, z]"
    by (auto simp: length_Suc_conv numeral_eq_Suc)
  then have b: "butlast (str_split ''/'' sc) = [d, r, s]" by simp
  show ?thesis
    unfolding generate_challenge_def challenge_content_sha256_def [symmetric]
    by (simp add: assms(1,2,3) b Let_def)
qed

lemma recreate_canonical_request_hash_error:
  "recreate_canonical_request_hash method url headers sh csha = Inl e \<Longrightarrow> e = UnicodeDecodeError"
  by (auto simp: recreate_canonical_request_hash_def generate_canonical_query_string_def
        query_text_def decode_def Let_def split: sum.splits py_data.splits if_splits)

lemma cim_getitem_error: "cim_getitem headers key = Inl e \<Longrightarrow> e = KeyError key"
  by (auto simp: cim_getitem_def split: option.splits)

lemma parse_authorization_error: "parse_authorization a = Inl e \<Longrightarrow> \<exists>k. e = KeyError k"
  by (auto simp: parse_authorization_unfold split: option.splits)

lemma generate_challenge_error:
  assumes "generate_challenge now parse method url headers content = Inl e"
  shows "(\<exists>k. e = KeyError k) \<or> e = AttributeError \<or> e = ValueError
         \<or> e = UnicodeDecodeError \<or> parse_key_date now parse headers = Inl e"
proof (cases "cim_getitem headers ''Authorization''")
  case (Inl e')
  with assms cim_getitem_error [OF Inl] show ?thesis
    by (auto simp: generate_challenge_def)
next
  case (Inr v)
  show ?thesis
  proof (cases v)
    case (Many vs)
    with Inr assms show ?thesis by (simp add: generate_challenge_def)
  next
    case (Single a)
    show ?thesis
    proof (cases "parse_authorization a")
      case (Inl e')
      with Inr Single assms parse_authorization_error [OF Inl] show ?thesis
        by (auto simp: generate_challenge_def)
    next
      case pa: (Inr q)
      obtain t cred sh sg where q: "q = (t, cred, sh, sg)" by (cases q) auto
      show ?thesis
      proof (cases "\<exists>kid sc. str_split1 ''/'' cred = [kid, sc]
                       \<and> length (str_split ''/'' sc) = 4")
        case True
        then obtain kid sc where k: "str_split1 ''/'' cred = [kid, sc]"
          "length (str_split ''/'' sc) = 4" by blast
        from generate_challenge_after_auth [OF Inr [unfolded Single] pa [unfolded q] k,
              of now parse "method" "url" content] assms
        show ?thesis
          by (auto split: sum.splits dest: recreate_canonical_request_hash_error)
      next
        case False
        have "generate_challenge now parse method url headers content = Inl ValueError"
        proof (cases "\<exists>kid sc. str_split1 ''/'' cred = [kid, sc]")
          case True
          then obtain kid sc where k: "str_split1 ''/'' cred = [kid, sc]" by blast
          with False have "length (str_split ''/'' sc) \<noteq> 4" by simp
          then have "\<not> (\<exists>a b c. butlast (str_split ''/'' sc) = [a, b, c])"
            by (simp add: butlast_eq_three)
          then show ?thesis
            by (auto simp: generate_challenge_def Inr Single pa q k Let_def split: list.splits)
        next
          case False
          then show ?thesis
            by (auto simp: generate_challenge_def Inr Single pa q Let_def split: list.splits)
        qed
        with assms show ?thesis by simp
      qed
    qed
  qed
qed

text \<open>
  C3.  The clock-drift check of challenge extraction: with no \<open>x-amz-date\<close> header
  MissingHeaderError is raised; with one that the parser reads as an instant more than
  five seconds away from the clock, earlier or later, InvalidDateError is raised; at five
  seconds or less the date is returned and extraction goes on without that error.  This
  holds of \<open>_parse_key_date\<close>, and of \<open>generate_challenge\<close> once it has read the
  credential, which it does first.
\<close>

theorem clock_drift_check:
  "(cim_get headers ''x-amz-date'' = None \<longrightarrow>
      parse_key_date now parse headers = Inl MissingHeaderError
      \<and> (reads_credential headers \<longrightarrow>
           generate_challenge now parse method url headers content = Inl MissingHeaderError))
   \<and> (cim_get headers ''x-amz-date'' = Some (Single key_date) \<and> parse key_date = Inr header
        \<and> tzinfo header = Some off \<longrightarrow>
        (5000000 < \<bar>now - (to_micro header - off)\<bar> \<longrightarrow>
           parse_key_date now parse headers = Inl InvalidDateError
           \<and> (reads_credential headers \<longrightarrow>
                generate_challenge now parse method url headers content = Inl InvalidDateError))
        \<and> (\<bar>now - (to_micro header - off)\<bar> \<le> 5000000 \<longrightarrow>
           parse_key_date now parse headers = Inr key_date
           \<and> generate_challenge now parse method url headers content \<noteq> Inl InvalidDateError))"
proof -
  have gc: "generate_challenge now parse method url headers content = Inl e"
    if "reads_credential headers" "parse_key_date now parse headers = Inl e" for e
  proof -
    from reads_credentialD [OF that(1)] obtain a t cred sh sg kid sc where
      "cim_getitem headers ''Authorization'' = Inr (Single a)"
      "parse_authorization a = Inr (t, cred, sh, sg)"
      "str_split1 ''/'' cred = [kid, sc]"
      "length (str_split ''/'' sc) = 4"
      by blast
    from generate_challenge_after_auth [OF this] that(2) show ?thesis by simp
  qed
  have ok: "generate_challenge now parse method url headers content \<noteq> Inl InvalidDateError"
    if "parse_key_date now parse headers = Inr kd" for kd
    using that generate_challenge_error [of now parse "method" "url" headers content InvalidDateError]
    by auto
  show ?thesis
    using gc ok by (auto simp: parse_key_date_cases)
qed

theorem clock_drift_check_witness:
  "parse_key_date (to_micro example_instant + 5000000) (\<lambda>s. Inr example_instant)
       [(''X-Amz-Date'', Single ''20230809T010203Z'')] = Inr ''20230809T010203Z''
   \<and> parse_key_date (to_micro example_instant + 6000000) (\<lambda>s. Inr example_instant)
       [(''X-Amz-Date'', Single ''20230809T010203Z'')] = Inl InvalidDateError
   \<and> parse_key_date (to_micro example_instant - 6000000) (\<lambda>s. Inr example_instant)
       [(''X-Amz-Date'', Single ''20230809T010203Z'')] = Inl InvalidDateError
   \<and> parse_key_date (to_micro example_instant) (\<lambda>s. Inr example_instant)
       [(''Host'', Single ''example.org'')] = Inl MissingHeaderError"
proof -
  have g: "cim_get [(''X-Amz-Date'', Single ''20230809T010203Z'')] ''x-amz-date''
             = Some (Single ''20230809T010203Z'')"
    by code_simp
  have n: "cim_get [(''Host'', Single ''example.org'')] ''x-amz-date'' = None"
    by code_simp
  have z: "tzinfo example_instant = Some 0"
    by (simp add: example_instant_def)
  note c = clock_drift_check [where parse = "\<lambda>s. Inr example_instant"
      and header = example_instant and off = 0]
  from c [where headers = "[(''X-Amz-Date'', Single ''20230809T010203Z'')]"
      and now = "to_micro example_instant + 5000000" and key_date = "''20230809T010203Z''"] g z
  have a: "parse_key_date (to_micro example_instant + 5000000) (\<lambda>s. Inr example_instant)
       [(''X-Amz-Date'', Single ''20230809T010203Z'')] = Inr ''20230809T010203Z''"
    by simp
  from c [where headers = "[(''X-Amz-Date'', Single ''20230809T010203Z'')]"
      and now = "to_micro example_instant + 6000000" and key_date = "''20230809T010203Z''"] g z
  have b: "parse_key_date (to_micro example_instant + 6000000) (\<lambda>s. Inr example_instant)
       [(''X-Amz-Date'', Single ''20230809T010203Z'')] = Inl InvalidDateError"
    by simp
  from c [where headers = "[(''X-Amz-Date'', Single ''20230809T010203Z'')]"
      and now = "to_micro example_instant - 6000000" and key_date = "''20230809T010203Z''"] g z
  have d: "parse_key_date (to_micro example_instant - 6000000) (\<lambda>s. Inr example_instant)
       [(''X-Amz-Date'', Single ''20230809T010203Z'')] = Inl InvalidDateError"
    by simp
  from c [where headers = "[(''Host'', Single ''example.org'')]"
      and now = "to_micro example_instant"] n
  have e: "parse_key_date (to_micro example_instant) (\<lambda>s. Inr example_instant)
       [(''Host'', Single ''example.org'')] = Inl MissingHeaderError"
    by simp
  from a b d e show ?thesis by simp
qed

subsection \<open>Splitting and joining\<close>

lemma find_sub_Some_eq: "find_sub sep s = Some (a, b) \<Longrightarrow> s = a @ sep @ b"
proof (induction s arbitrary: a)
  case Nil
  then show ?case by (simp split: if_splits)
next
  case (Cons x xs)
  show ?case
  proof (cases "take (length sep) (x # xs) = sep")
    case True
    with Cons.prems have "a = []" "b = drop (length sep) (x # xs)" by auto
    with True show ?thesis
      by (metis append_Nil append_take_drop_id)
  next
    case False
    with Cons.prems obtain a' where a': "find_sub sep xs = Some (a', b)" "a = x # a'"
      by (auto split: option.splits)
    from Cons.IH [OF a'(1)] a'(2) show ?thesis by simp
  qed
qed

lemma find_sub_char_notin: "c \<notin> set s \<Longrightarrow> find_sub [c] s = None"
  by (induction s) auto

lemma find_sub_char_in: "c \<notin> set a \<Longrightarrow> find_sub [c] (a @ c # b) = Some (a, b)"
  by (induction a) auto

lemma find_sub_char_Some: "find_sub [c] s = Some (a, b) \<Longrightarrow> c \<notin> set a"
  by (induction s arbitrary: a) (auto split: if_splits option.splits)

lemma str_split_not_Nil: "str_split sep s \<noteq> []"
  by (subst str_split.simps) (simp split: option.splits)

lemma join_Cons: "ps \<noteq> [] \<Longrightarrow> join sep (p # ps) = p @ sep @ join sep ps"
  by (cases ps) auto

lemma join_str_split: "sep \<noteq> [] \<Longrightarrow> join sep (str_split sep s) = s"
proof (induction sep s rule: str_split.induct)
  case (1 sep s)
  show ?case
  proof (cases "find_sub sep s")
    case None
    with 1 show ?thesis by (subst str_split.simps) simp
  next
    case (Some ab)
    obtain a b where ab: "ab = (a, b)" by (cases ab) auto
    from "1.IH" [OF "1.prems" Some [unfolded ab] refl] "1.prems"
    have "join sep (str_split sep b) = b" by simp
    moreover have "s = a @ sep @ b"
      using Some ab find_sub_Some_eq by simp
    ultimately show ?thesis
      using "1.prems" Some ab
      by (subst str_split.simps) (simp add: join_Cons str_split_not_Nil)
  qed
qed

lemma str_split_char_notin: "c \<notin> set s \<Longrightarrow> str_split [c] s = [s]"
  by (subst str_split.simps) (simp add: find_sub_char_notin)

lemma str_split_char_app: "c \<notin> set a \<Longrightarrow> str_split [c] (a @ c # b) = a # str_split [c] b"
  by (subst str_split.simps) (simp add: find_sub_char_in)

lemma str_split_char_elems: "p \<in> set (str_split [c] s) \<Longrightarrow> c \<notin> set p"
proof (induction "[c]" s arbitrary: p rule: str_split.induct)
  case (1 s)
  show ?case
  proof (cases "find_sub [c] s")
    case None
    then have "c \<notin> set s"
      by (induction s) (auto split: if_splits option.splits)
    moreover from None "1.prems" have "p = s"
      by (subst (asm) str_split.simps) simp
    ultimately show ?thesis by simp
  next
    case (Some ab)
    obtain a b where ab: "ab = (a, b)" by (cases ab) auto
    from "1.prems" Some ab have "p = a \<or> p \<in> set (str_split [c] b)"
      by (subst (asm) str_split.simps) auto
    then show ?thesis
    proof
      assume "p = a"
      with Some ab find_sub_char_Some show ?thesis by simp
    next
      assume "p \<in> set (str_split [c] b)"
      from "1.hyps" [OF _ Some [unfolded ab] refl this] show ?thesis by simp
    qed
  qed
qed

lemma str_split_char_join:
  "ps \<noteq> [] \<Longrightarrow> \<forall>p\<in>set ps. c \<notin> set p \<Longrightarrow> str_split [c] (join [c] ps) = ps"
proof (induction ps)
  case Nil
  then show ?case by simp
next
  case (Cons p ps)
  show ?case
  proof (cases "ps = []")
    case True
    with Cons.prems show ?thesis by (simp add: str_split_char_notin)
  next
    case False
    with Cons show ?thesis by (simp add: join_Cons str_split_char_app)
  qed
qed

subsection \<open>Canonical headers\<close>

lemma fold_cond_filter:
  "fold (\<lambda>x d. if P x then f x d else d) xs d0 = fold f (filter P xs) d0"
  by (induction xs arbitrary: d0) auto

lemma canonical_headers_dict_eq:
  "canonical_headers_dict headers = headers_dict (\<lambda>k. k \<notin> set excluded_headers) headers"
proof -
  have "(\<lambda>(key, values) d.
           let key' = lower key
           in if key' \<notin> set excluded_headers
              then AList.update key' (canonical_value values) d else d)
        = (\<lambda>kv d. if lower (fst kv) \<notin> set excluded_headers
                   then AList.update (lower (fst kv)) (canonical_value (snd kv)) d else d)"
    by (auto simp: fun_eq_iff Let_def)
  then show ?thesis
    unfolding canonical_headers_dict_def headers_dict_def
    by (simp only: fold_cond_filter)
qed

lemma recreate_headers_dict_eq:
  "recreate_headers_dict headers sh = headers_dict (\<lambda>k. k \<in> set (str_split '';'' sh)) headers"
proof -
  have "(\<lambda>(key, values) d.
           let key' = lower key
           in if key' \<in> set (str_split '';'' sh)
              then AList.update key' (canonical_value values) d else d)
        = (\<lambda>kv d. if lower (fst kv) \<in> set (str_split '';'' sh)
                   then AList.update (lower (fst kv)) (canonical_value (snd kv)) d else d)"
    by (auto simp: fun_eq_iff Let_def)
  then show ?thesis
    unfolding recreate_headers_dict_def headers_dict_def Let_def
    by (simp only: fold_cond_filter)
qed

lemma find_filter: "find P (filter Q xs) = find (\<lambda>x. Q x \<and> P x) xs"
  by (induction xs) auto

lemma map_of_headers_dict:
  "map_of (headers_dict keep headers) n =
     (if keep n
      then map_option (\<lambda>kv. canonical_value (snd kv))
             (find (\<lambda>kv. lower (fst kv) = n) (rev headers))
      else None)"
proof -
  have f: "find (\<lambda>kv. keep (lower (fst kv)) \<and> lower (fst kv) = n) xs
          = (if keep n then find (\<lambda>kv. lower (fst kv) = n) xs else None)" for xs
    by (induction xs) auto
  have "map_of (headers_dict keep headers) n
          = (case find (\<lambda>kv. keep (lower (fst kv)) \<and> lower (fst kv) = n) (rev headers) of
               Some kv \<Rightarrow> Some (canonical_value (snd kv)) | None \<Rightarrow> None)"
    by (simp add: headers_dict_def map_of_fold_update rev_filter find_filter
          cong: option.case_cong)
  also have "\<dots> = (if keep n
      then map_option (\<lambda>kv. canonical_value (snd kv))
             (find (\<lambda>kv. lower (fst kv) = n) (rev headers))
      else None)"
    unfolding f by (simp split: option.splits)
  finally show ?thesis .
qed








lemma multi_space_sub_space:
  "collapse_runs (CHR '' '' # cs) = CHR '' '' # collapse_runs (dropWhile (\<lambda>d. d = CHR '' '') cs)"
  by (induction cs) auto

lemma multi_space_sub_collapse: "multi_space_sub v = collapse_runs v"
proof (induction v rule: multi_space_sub.induct)
  case 1
  then show ?case by (simp add: multi_space_sub.simps)
next
  case (2 c cs)
  show ?case
  proof (cases "c = CHR '' ''")
    case True
    with 2 show ?thesis
      by (simp add: multi_space_sub.simps multi_space_sub_space)
  next
    case False
    with 2 show ?thesis
      by (cases cs) (simp_all add: multi_space_sub.simps)
  qed
qed

lemma collapse_runs_hd: "v \<noteq> [] \<Longrightarrow> hd (collapse_runs v) = hd v"
  by (induction v rule: collapse_runs.induct) auto

lemma collapse_runs_Nil: "collapse_runs v = [] \<longleftrightarrow> v = []"
  by (induction v rule: collapse_runs.induct) auto

lemma collapse_runs_last: "v \<noteq> [] \<Longrightarrow> last (collapse_runs v) = last v"
  by (induction v rule: collapse_runs.induct) (auto simp: collapse_runs_Nil)







text \<open>
  What holds of header values in both modes, for every mapping.  The multi-space
  substitution collapses every run of spaces to one space and changes nothing else, so
  \<open>"hello    world"\<close> becomes \<open>"hello world"\<close>; the first and the last character of a
  value stay (nothing is trimmed); the values of one entry whose value is a list or tuple
  are joined with a comma.  Both canonicalizers store this canonical value: the full mode
  under every name not excluded, the restricted mode under every name of the
  signed-header list, each taken from the last entry of the mapping under that name.
\<close>

theorem whitespace_normalization:
  "multi_space_sub v = collapse_runs v
   \<and> multi_space_sub ''hello    world'' = ''hello world''
   \<and> (v \<noteq> [] \<longrightarrow> hd (multi_space_sub v) = hd v \<and> last (multi_space_sub v) = last v)
   \<and> canonical_value (Single v) = multi_space_sub v
   \<and> canonical_value (Many vs) = join '','' (map multi_space_sub vs)
   \<and> map_of (canonical_headers_dict headers) n
       = (if n \<notin> set excluded_headers
          then map_option (\<lambda>kv. canonical_value (snd kv))
                 (find (\<lambda>kv. lower (fst kv) = n) (rev headers))
          else None)
   \<and> map_of (recreate_headers_dict headers sh) n
       = (if n \<in> set (str_split '';'' sh)
          then map_option (\<lambda>kv. canonical_value (snd kv))
                 (find (\<lambda>kv. lower (fst kv) = n) (rev headers))
          else None)
   \<and> fst (generate_canonical_headers headers)
       = join nl (map header_line (sort (canonical_headers_dict headers)))
   \<and> recreate_canonical_headers headers sh
       = join nl (map header_line (sort (recreate_headers_dict headers sh)))"
proof -
  have "multi_space_sub ''hello    world'' = ''hello world''"
    by code_simp
  then show ?thesis
    by (simp add: multi_space_sub_collapse collapse_runs_hd collapse_runs_last
          canonical_value_def canonical_headers_dict_eq recreate_headers_dict_eq
          map_of_headers_dict generate_canonical_headers_def recreate_canonical_headers_def
          Let_def del: collapse_runs.simps)
qed

theorem whitespace_normalization_witness:
  "hd (multi_space_sub ''  hello    world '') = CHR '' ''
   \<and> last (multi_space_sub ''  hello    world '') = CHR '' ''
   \<and> multi_space_sub ''  hello    world '' = '' hello world ''
   \<and> generate_canonical_headers [(''Foo'', Single ''hello    world''), (''bar'', Many [''a  b'', ''c''])]
       = (''bar:a b,c'' @ nl @ ''foo:hello world'', ''bar;foo'')
   \<and> recreate_canonical_headers
         [(''Foo'', Single ''hello    world''), (''bar'', Many [''a  b'', ''c''])] ''bar;foo''
       = ''bar:a b,c'' @ nl @ ''foo:hello world''"
proof -
  have a: "''  hello    world '' \<noteq> []" by simp
  from whitespace_normalization [of "''  hello    world ''"] a
  have "hd (multi_space_sub ''  hello    world '') = hd ''  hello    world ''"
    "last (multi_space_sub ''  hello    world '') = last ''  hello    world ''"
    by blast+
  moreover have "multi_space_sub ''  hello    world '' = '' hello world ''"
    by code_simp
  moreover have "generate_canonical_headers
         [(''Foo'', Single ''hello    world''), (''bar'', Many [''a  b'', ''c''])]
       = (''bar:a b,c'' @ nl @ ''foo:hello world'', ''bar;foo'')"
    by code_simp
  moreover have "recreate_canonical_headers
         [(''Foo'', Single ''hello    world''), (''bar'', Many [''a  b'', ''c''])] ''bar;foo''
       = ''bar:a b,c'' @ nl @ ''foo:hello world''"
    by code_simp
  ultimately show ?thesis by simp
qed

text \<open>
  C9.  The claim's last part fails on the code, against the code's own docstring
  ("separate the values for a multi-value header using commas"): the values of a header
  that the mapping holds in several entries under one name are not joined.  Each entry is
  a value of its own and the assignment to the dict replaces the earlier one, so of the
  entries \<open>a: 1\<close> and \<open>a: 2\<close> both modes keep \<open>a:2\<close>, where the join gives
  \<open>a:1,2\<close> (as it does for one entry whose value is the list of both).
\<close>

theorem repeated_header_entries_not_joined:
  "generate_canonical_headers [(''a'', Single ''1''), (''a'', Single ''2'')] = (''a:2'', ''a'')
   \<and> recreate_canonical_headers [(''a'', Single ''1''), (''a'', Single ''2'')] ''a'' = ''a:2''
   \<and> generate_canonical_headers [(''a'', Many [''1'', ''2''])] = (''a:1,2'', ''a'')"
  by code_simp

subsection \<open>Signing\<close>

lemma cim_setitem_other:
  "filter (\<lambda>kv. lower (fst kv) \<noteq> lower key) (cim_setitem headers key v)
     = filter (\<lambda>kv. lower (fst kv) \<noteq> lower key) headers"
  by (induction headers) auto

lemma cim_setitem_same:
  "filter (\<lambda>kv. lower (fst kv) = lower key) (cim_setitem headers key v) = [(key, v)]"
  by (induction headers) (auto simp: filter_empty_conv)





lemma filter_filter_name:
  "filter (\<lambda>kv. P (lower (fst kv))) xs = filter (\<lambda>kv. P (lower (fst kv))) ys"
  if "filter (\<lambda>kv. lower (fst kv) \<noteq> n) xs = filter (\<lambda>kv. lower (fst kv) \<noteq> n) ys" "\<not> P n"
proof -
  have "filter (\<lambda>kv. P (lower (fst kv))) zs
          = filter (\<lambda>kv. P (lower (fst kv))) (filter (\<lambda>kv. lower (fst kv) \<noteq> n) zs)" for zs
    using that(2) by (induction zs) auto
  with that(1) show ?thesis by metis
qed

lemma sign_request_Inr:
  "sign_request urlparse service_name m url region headers content key_id secret date = Inr headers'
   \<longleftrightarrow> (\<exists>url' sd ad crh sh.
         urlparse url = Inr url' \<and> to_signer_date date = Inr sd \<and> to_amz_date date = Inr ad
         \<and> generate_canonical_request_hash m url'
               (with_content_header headers (signer_content_sha256 url' content))
               (signer_content_sha256 url' content) = Inr (crh, sh)
         \<and> headers' = cim_setitem (with_content_header headers (signer_content_sha256 url' content))
               ''Authorization''
               (Single (''AWS4-HMAC-SHA256 Credential='' @ key_id @ ''/''
                  @ signer_scope sd region service_name
                  @ '', SignedHeaders='' @ sh @ '', Signature=''
                  @ generate_signature (generate_signing_key secret sd region service_name)
                      (''AWS4-HMAC-SHA256'' @ nl @ ad @ nl @ signer_scope sd region service_name
                         @ nl @ crh))))"
  unfolding sign_request_def signer_content_sha256_def with_content_header_def signer_scope_def
  by (auto simp: Let_def split: sum.splits prod.splits)

lemma lower_Authorization: "lower ''Authorization'' = ''authorization''"
  by code_simp

lemma lower_content_header: "lower ''x-amz-content-sha256'' = ''x-amz-content-sha256''"
  by code_simp

lemma with_content_header_frame:
  "filter (\<lambda>kv. lower (fst kv) \<noteq> ''x-amz-content-sha256'') (with_content_header headers c)
     = filter (\<lambda>kv. lower (fst kv) \<noteq> ''x-amz-content-sha256'') headers"
  using cim_setitem_other [of "''x-amz-content-sha256''" headers "Single c"]
  by (simp add: with_content_header_def lower_content_header)

lemma with_content_header_entry:
  "filter (\<lambda>kv. lower (fst kv) = ''x-amz-content-sha256'') (with_content_header headers c)
     = (if cim_contains headers ''x-amz-content-sha256''
        then filter (\<lambda>kv. lower (fst kv) = ''x-amz-content-sha256'') headers
        else [(''x-amz-content-sha256'', Single c)])"
  using cim_setitem_same [of "''x-amz-content-sha256''" headers "Single c"]
  by (simp add: with_content_header_def lower_content_header)

lemma generate_canonical_request_hash_Str:
  "query url' = Str q \<Longrightarrow>
     \<exists>crh. generate_canonical_request_hash m url' hs c
            = Inr (crh, snd (generate_canonical_headers hs))"
  by (simp add: generate_canonical_request_hash_def generate_canonical_query_string_def
        query_text_def Let_def case_prod_beta)

lemma to_utc_naive: "tzinfo v = None \<Longrightarrow> to_utc v = Inr v"
  by (simp add: to_utc_def)

lemma sign_request_returns:
  assumes "urlparse url = Inr url'" and "query url' = Str q" and "tzinfo date = None"
  shows "\<exists>h'. sign_request urlparse service_name m url region headers content key_id secret
           date = Inr h'"
proof -
  obtain crh where "generate_canonical_request_hash m url'
      (with_content_header headers (signer_content_sha256 url' content))
      (signer_content_sha256 url' content)
      = Inr (crh, snd (generate_canonical_headers
           (with_content_header headers (signer_content_sha256 url' content))))"
    using generate_canonical_request_hash_Str [OF assms(2)] by blast
  then show ?thesis
    unfolding sign_request_Inr
    by (simp add: assms(1) to_signer_date_def to_amz_date_def to_utc_naive [OF assms(3)])
qed

text \<open>
  C7.  When \<open>sign_request\<close> returns, the returned mapping is the input mapping with two
  possible changes: there is exactly one entry under the name Authorization, and its value
  is the computed one, made of the key id, the scope of the formatted date, the region and
  the service, the signed-header list of the full-mode canonicalization and the signature
  of the string to sign under the derived signing key; the entries under
  \<open>x-amz-content-sha256\<close> are those of the input when it had one, and otherwise the single
  entry with the computed content hash; every other entry is unchanged, in the same order.
\<close>

theorem sign_request_frame:
  "sign_request urlparse service_name m url region headers content key_id secret date
     = Inr headers' \<Longrightarrow>
   (\<exists>url' sd ad crh sh.
       urlparse url = Inr url' \<and> to_signer_date date = Inr sd \<and> to_amz_date date = Inr ad
       \<and> generate_canonical_request_hash m url'
             (with_content_header headers (signer_content_sha256 url' content))
             (signer_content_sha256 url' content) = Inr (crh, sh)
       \<and> filter (\<lambda>kv. lower (fst kv) = ''authorization'') headers'
           = [(''Authorization'',
               Single (''AWS4-HMAC-SHA256 Credential='' @ key_id @ ''/''
                 @ signer_scope sd region service_name
                 @ '', SignedHeaders='' @ sh @ '', Signature=''
                 @ generate_signature (generate_signing_key secret sd region service_name)
                     (''AWS4-HMAC-SHA256'' @ nl @ ad @ nl @ signer_scope sd region service_name
                        @ nl @ crh)))])
   \<and> (if cim_contains headers ''x-amz-content-sha256''
       then filter (\<lambda>kv. lower (fst kv) = ''x-amz-content-sha256'') headers'
              = filter (\<lambda>kv. lower (fst kv) = ''x-amz-content-sha256'') headers
       else \<exists>url'. urlparse url = Inr url'
              \<and> filter (\<lambda>kv. lower (fst kv) = ''x-amz-content-sha256'') headers'
                  = [(''x-amz-content-sha256'', Single (signer_content_sha256 url' content))])
   \<and> filter (\<lambda>kv. lower (fst kv) \<noteq> ''authorization''
                  \<and> lower (fst kv) \<noteq> ''x-amz-content-sha256'') headers'
       = filter (\<lambda>kv. lower (fst kv) \<noteq> ''authorization''
                  \<and> lower (fst kv) \<noteq> ''x-amz-content-sha256'') headers"
proof -
  assume "sign_request urlparse service_name m url region headers content key_id secret date
     = Inr headers'"
  then obtain url' sd ad crh sh where u: "urlparse url = Inr url'"
    and sd: "to_signer_date date = Inr sd" and ad: "to_amz_date date = Inr ad"
    and g: "generate_canonical_request_hash m url'
             (with_content_header headers (signer_content_sha256 url' content))
             (signer_content_sha256 url' content) = Inr (crh, sh)"
    and h: "headers' = cim_setitem (with_content_header headers (signer_content_sha256 url' content))
               ''Authorization''
               (Single (''AWS4-HMAC-SHA256 Credential='' @ key_id @ ''/''
                  @ signer_scope sd region service_name
                  @ '', SignedHeaders='' @ sh @ '', Signature=''
                  @ generate_signature (generate_signing_key secret sd region service_name)
                      (''AWS4-HMAC-SHA256'' @ nl @ ad @ nl @ signer_scope sd region service_name
                         @ nl @ crh)))"
    unfolding sign_request_Inr by blast
  let ?w = "with_content_header headers (signer_content_sha256 url' content)"
  let ?v = "Single (''AWS4-HMAC-SHA256 Credential='' @ key_id @ ''/''
                  @ signer_scope sd region service_name
                  @ '', SignedHeaders='' @ sh @ '', Signature=''
                  @ generate_signature (generate_signing_key secret sd region service_name)
                      (''AWS4-HMAC-SHA256'' @ nl @ ad @ nl @ signer_scope sd region service_name
                         @ nl @ crh))"
  have a: "filter (\<lambda>kv. lower (fst kv) = ''authorization'') headers' = [(''Authorization'', ?v)]"
    using cim_setitem_same [of "''Authorization''" ?w ?v]
    by (simp only: h lower_Authorization)
  have o: "filter (\<lambda>kv. lower (fst kv) \<noteq> ''authorization'') headers'
             = filter (\<lambda>kv. lower (fst kv) \<noteq> ''authorization'') ?w"
    using cim_setitem_other [of "''Authorization''" ?w ?v]
    by (simp only: h lower_Authorization)
  have c: "filter (\<lambda>kv. lower (fst kv) = ''x-amz-content-sha256'') headers'
             = filter (\<lambda>kv. lower (fst kv) = ''x-amz-content-sha256'') ?w"
    by (rule filter_filter_name [where P = "\<lambda>n. n = ''x-amz-content-sha256''", OF o]) simp
  have r1: "filter (\<lambda>kv. lower (fst kv) \<noteq> ''authorization''
                  \<and> lower (fst kv) \<noteq> ''x-amz-content-sha256'') headers'
       = filter (\<lambda>kv. lower (fst kv) \<noteq> ''authorization''
                  \<and> lower (fst kv) \<noteq> ''x-amz-content-sha256'') ?w"
    by (rule filter_filter_name [where P = "\<lambda>n. n \<noteq> ''authorization''
          \<and> n \<noteq> ''x-amz-content-sha256''", OF o]) simp
  have r2: "filter (\<lambda>kv. lower (fst kv) \<noteq> ''authorization''
                  \<and> lower (fst kv) \<noteq> ''x-amz-content-sha256'') ?w
       = filter (\<lambda>kv. lower (fst kv) \<noteq> ''authorization''
                  \<and> lower (fst kv) \<noteq> ''x-amz-content-sha256'') headers"
    by (rule filter_filter_name [where P = "\<lambda>n. n \<noteq> ''authorization''
          \<and> n \<noteq> ''x-amz-content-sha256''", OF with_content_header_frame]) simp
  from u sd ad g a have "\<exists>url' sd ad crh sh.
       urlparse url = Inr url' \<and> to_signer_date date = Inr sd \<and> to_amz_date date = Inr ad
       \<and> generate_canonical_request_hash m url'
             (with_content_header headers (signer_content_sha256 url' content))
             (signer_content_sha256 url' content) = Inr (crh, sh)
       \<and> filter (\<lambda>kv. lower (fst kv) = ''authorization'') headers'
           = [(''Authorization'',
               Single (''AWS4-HMAC-SHA256 Credential='' @ key_id @ ''/''
                 @ signer_scope sd region service_name
                 @ '', SignedHeaders='' @ sh @ '', Signature=''
                 @ generate_signature (generate_signing_key secret sd region service_name)
                     (''AWS4-HMAC-SHA256'' @ nl @ ad @ nl @ signer_scope sd region service_name
                        @ nl @ crh)))]"
    by blast
  moreover have "if cim_contains headers ''x-amz-content-sha256''
       then filter (\<lambda>kv. lower (fst kv) = ''x-amz-content-sha256'') headers'
              = filter (\<lambda>kv. lower (fst kv) = ''x-amz-content-sha256'') headers
       else \<exists>url'. urlparse url = Inr url'
              \<and> filter (\<lambda>kv. lower (fst kv) = ''x-amz-content-sha256'') headers'
                  = [(''x-amz-content-sha256'', Single (signer_content_sha256 url' content))]"
    using u by (simp add: c with_content_header_entry)
  moreover note r1 [unfolded r2]
  ultimately show ?thesis by blast
qed


theorem sign_request_frame_witness:
  "\<exists>h'. sign_request example_urlparse ''service'' ''PUT'' ''http://h/my/path?foo=bar'' ''ksa''
          [(''Host'', Single ''h''), (''authorization'', Single ''stale''),
           (''X-Amz-Date'', Single ''20230809T010203Z'')]
          (Bytes []) ''access-key'' ''secret-key'' example_date = Inr h'
     \<and> filter (\<lambda>kv. lower (fst kv) \<noteq> ''authorization''
                  \<and> lower (fst kv) \<noteq> ''x-amz-content-sha256'') h'
         = filter (\<lambda>kv. lower (fst kv) \<noteq> ''authorization''
                  \<and> lower (fst kv) \<noteq> ''x-amz-content-sha256'')
             [(''Host'', Single ''h''), (''authorization'', Single ''stale''),
              (''X-Amz-Date'', Single ''20230809T010203Z'')]
     \<and> (\<exists>v. filter (\<lambda>kv. lower (fst kv) = ''authorization'') h'
              = [(''Authorization'', Single v)])"
proof -
  have u: "example_urlparse ''http://h/my/path?foo=bar''
             = Inr \<lparr>scheme = ''http'', path = ''/my/path'', query = Str ''foo=bar''\<rparr>"
    by (simp add: example_urlparse_def)
  have q: "query \<lparr>scheme = ''http'', path = ''/my/path'', query = Str ''foo=bar''\<rparr>
             = Str ''foo=bar''"
    by simp
  have d: "tzinfo example_date = None"
    by (simp add: example_date_def)
  obtain h' where h: "sign_request example_urlparse ''service'' ''PUT''
          ''http://h/my/path?foo=bar'' ''ksa''
          [(''Host'', Single ''h''), (''authorization'', Single ''stale''),
           (''X-Amz-Date'', Single ''20230809T010203Z'')]
          (Bytes []) ''access-key'' ''secret-key'' example_date = Inr h'"
    using sign_request_returns [where urlparse = example_urlparse
        and url = "''http://h/my/path?foo=bar''" and date = example_date, OF u q d]
    by blast
  from sign_request_frame [OF h] h show ?thesis by blast
qed

subsection \<open>The canonical query string\<close>

text \<open>
  C4, as the claim states it, fails: the code splits each parameter on every \<open>=\<close> and
  sorts the lists of segments, so \<open>a=b=c\<close> (segments a, b, c) comes before \<open>a=b-\<close>
  (segments a, b-), while sorting by name and value, or by the raw text, puts \<open>a=b-\<close>
  first.
\<close>

theorem canonical_query_string_split_every_eq:
  "generate_canonical_query_string (Str ''a=b=c&a=b-'') = Inr ''a=b=c&a=b-''
   \<and> spec_query_by_pair ''a=b=c&a=b-'' = ''a=b-&a=b=c''
   \<and> spec_query_by_text ''a=b=c&a=b-'' = ''a=b-&a=b=c''
   \<and> generate_canonical_query_string (Str ''a=b=c&a=b-'')
       \<noteq> Inr (spec_query_by_pair ''a=b=c&a=b-'')
   \<and> generate_canonical_query_string (Str ''a=b=c&a=b-'')
       \<noteq> Inr (spec_query_by_text ''a=b=c&a=b-'')"
  by code_simp

lemma canonical_query_string_Str:
  "generate_canonical_query_string (Str q)
     = Inr (join ''&'' (map (join ''='') (sort (map (str_split ''='') (str_split ''&'' q)))))"
  by (simp add: generate_canonical_query_string_def query_text_def)

lemma canonical_query_parts:
  fixes q :: string
  defines "ps' \<equiv> map (join ''='') (sort (map (str_split ''='') (str_split ''&'' q)))"
  shows "mset ps' = mset (str_split ''&'' q)"
    and "str_split ''&'' (join ''&'' ps') = ps'"
    and "map (str_split ''='') ps' = sort (map (str_split ''='') (str_split ''&'' q))"
proof -
  have "mset ps' = image_mset (join ''='') (mset (map (str_split ''='') (str_split ''&'' q)))"
    unfolding ps'_def by (simp only: mset_map mset_sort)
  also have "\<dots> = image_mset (\<lambda>p. join ''='' (str_split ''='' p)) (mset (str_split ''&'' q))"
    by (simp add: multiset.map_comp comp_def)
  also have "\<dots> = mset (str_split ''&'' q)"
    by (simp add: join_str_split)
  finally show m: "mset ps' = mset (str_split ''&'' q)" .
  from m have s: "set ps' = set (str_split ''&'' q)"
    by (rule mset_eq_setD)
  have ne: "ps' \<noteq> []"
    using m str_split_not_Nil [of "''&''" q] by auto
  have "\<forall>p\<in>set ps'. CHR ''&'' \<notin> set p"
    unfolding s using str_split_char_elems by blast
  with ne show "str_split ''&'' (join ''&'' ps') = ps'"
    by (rule str_split_char_join)
  have "str_split ''='' (join ''='' l) = l"
    if "l \<in> set (sort (map (str_split ''='') (str_split ''&'' q)))" for l
  proof -
    from that obtain p where "l = str_split ''='' p" by auto
    then show ?thesis by (simp add: join_str_split)
  qed
  then have "map (\<lambda>l. str_split ''='' (join ''='' l))
               (sort (map (str_split ''='') (str_split ''&'' q)))
             = sort (map (str_split ''='') (str_split ''&'' q))"
    by (rule map_idI)
  then show "map (str_split ''='') ps' = sort (map (str_split ''='') (str_split ''&'' q))"
    unfolding ps'_def by (simp add: comp_def)
qed

text \<open>
  C4, amended.  For every query text the canonicalizer splits it on \<open>&\<close>, splits each
  parameter on every \<open>=\<close>, sorts the lists of segments lexicographically, element by
  element, and rejoins each with \<open>=\<close> and all with \<open>&\<close>: the result has the parameters
  of the input, each unchanged and as often, in the order of their segment lists.  An
  absent or empty query gives the empty text.
\<close>

theorem canonical_query_string_sorted:
  "generate_canonical_query_string (Str q)
     = Inr (join ''&'' (map (join ''='') (sort (map (str_split ''='') (str_split ''&'' q)))))
   \<and> (\<exists>out. generate_canonical_query_string (Str q) = Inr out
         \<and> mset (str_split ''&'' out) = mset (str_split ''&'' q)
         \<and> sorted (map (str_split ''='') (str_split ''&'' out)))
   \<and> generate_canonical_query_string NoneVal = Inr []
   \<and> generate_canonical_query_string (Str []) = Inr []
   \<and> generate_canonical_query_string (Bytes []) = Inr []"
proof -
  have e: "generate_canonical_query_string d = Inr []" if "query_text d = Inr []" for d
  proof -
    have "join ''&'' (map (join ''='') (sort (map (str_split ''='') (str_split ''&'' [])))) = []"
      by code_simp
    with that show ?thesis
      by (simp add: generate_canonical_query_string_def)
  qed
  let ?out = "join ''&'' (map (join ''='') (sort (map (str_split ''='') (str_split ''&'' q))))"
  have "mset (str_split ''&'' ?out) = mset (str_split ''&'' q)"
    by (simp only: canonical_query_parts(2) canonical_query_parts(1))
  moreover have "sorted (map (str_split ''='') (str_split ''&'' ?out))"
    by (simp only: canonical_query_parts(2) canonical_query_parts(3) sorted_sort)
  ultimately have "\<exists>out. generate_canonical_query_string (Str q) = Inr out
         \<and> mset (str_split ''&'' out) = mset (str_split ''&'' q)
         \<and> sorted (map (str_split ''='') (str_split ''&'' out))"
    using canonical_query_string_Str by blast
  moreover have "generate_canonical_query_string NoneVal = Inr []"
    by (rule e) (simp add: query_text_def)
  moreover have "generate_canonical_query_string (Str []) = Inr []"
    by (rule e) (simp add: query_text_def)
  moreover have "generate_canonical_query_string (Bytes []) = Inr []"
    by (rule e) (simp add: query_text_def)
  moreover note canonical_query_string_Str [of q]
  ultimately show ?thesis by blast
qed

subsection \<open>Signing, then verifying\<close>

















































end
